theory Spec2Isabelle
  imports Complex_Main "HOL-Library.Log_Nat"
begin

section \<open>Python floats\<close>

text \<open>
  A Python \<open>float\<close> is an IEEE binary64 number: a rational with a 53 bit significand.
  Each arithmetic operation returns the exact result rounded to the nearest such number,
  ties going to the even significand. The scalars of \<open>adversarial_training.py\<close>
  (\<open>fraction\<close>, \<open>1 - fraction\<close>, \<open>fraction * N\<close>, \<open>split / float(N)\<close>) are
  either zero or lie between \<open>2 ^ -53\<close> and the batch size, so the rounding below covers
  the normal range only: no subnormal numbers, no overflow, no NaN.
  Floats are embedded in \<open>real\<close>; a float is a real that \<open>round64\<close> leaves unchanged.
  The constructor's argument \<open>fraction\<close> is a float; what is proved for every real
  fraction holds for every float.
\<close>

definition ilog2 :: "real \<Rightarrow> int" where
  \<comment> \<open>the binary exponent of a positive number: \<open>2 powi ilog2 x \<le> x < 2 powi (ilog2 x + 1)\<close>\<close>
  "ilog2 x = (if 1 \<le> x then bitlen \<lfloor>x\<rfloor> - 1 else - bitlen (\<lceil>1 / x\<rceil> - 1))"

definition round_half_even :: "real \<Rightarrow> int" where
  "round_half_even y =
     (let n = \<lfloor>y\<rfloor>; r = y - of_int n
      in if r < 1 / 2 then n else if 1 / 2 < r then n + 1 else if even n then n else n + 1)"

definition round64 :: "real \<Rightarrow> real" where
  "round64 x =
     (if x = 0 then 0
      else let q = 2 powi (ilog2 \<bar>x\<bar> - 52)
           in sgn x * (of_int (round_half_even (\<bar>x\<bar> / q)) * q))"

definition fsub :: "real \<Rightarrow> real \<Rightarrow> real" where
  "fsub a b = round64 (a - b)"

definition fmul :: "real \<Rightarrow> real \<Rightarrow> real" where
  "fmul a b = round64 (a * b)"

definition fdiv :: "real \<Rightarrow> real \<Rightarrow> real" where
  \<comment> \<open>the caller raises \<open>ZeroDivisionError\<close> when \<open>b = 0\<close>\<close>
  "fdiv a b = round64 (a / b)"

definition float_of_int :: "int \<Rightarrow> real" where
  \<comment> \<open>\<open>float(n)\<close>, and the conversion of an \<open>int\<close> operand in mixed arithmetic\<close>
  "float_of_int n = round64 (of_int n)"

definition py_int :: "real \<Rightarrow> int" where
  \<comment> \<open>\<open>int(x)\<close> truncates toward zero\<close>
  "py_int x = (if 0 \<le> x then \<lfloor>x\<rfloor> else \<lceil>x\<rceil>)"


section \<open>Slices, tensors and library operations\<close>

text \<open>
  A tensor is the list of its slices along dimension 0: a batch of inputs is a list of
  examples of an arbitrary type \<open>'x\<close> with addition, a batch of targets a list of
  integer labels, a batch of logits a list of rows of reals. Tensor arithmetic of the
  external library is exact on reals; only the Python scalars are rounded. Moving a
  tensor to a device (\<open>common.torch.as_variable\<close>) does not change its value and is left
  out.
\<close>

datatype error = AssertionError | ZeroDivisionError | RuntimeError | IndexError | TypeError

definition ebind :: "error + 'a \<Rightarrow> ('a \<Rightarrow> error + 'b) \<Rightarrow> error + 'b" where
  "ebind r f = (case r of Inl e \<Rightarrow> Inl e | Inr v \<Rightarrow> f v)"

fun map_err :: "('a \<Rightarrow> error + 'b) \<Rightarrow> 'a list \<Rightarrow> error + 'b list" where
  "map_err f [] = Inr []"
| "map_err f (x # xs) =
     (case f x of Inl e \<Rightarrow> Inl e
      | Inr y \<Rightarrow> (case map_err f xs of Inl e \<Rightarrow> Inl e | Inr ys \<Rightarrow> Inr (y # ys)))"

definition py_index :: "nat \<Rightarrow> int \<Rightarrow> nat" where
  \<comment> \<open>a slice bound on a sequence of length \<open>n\<close>: negative bounds count from the end,
      and every bound is clipped to \<open>0 .. n\<close>\<close>
  "py_index n i = (if i < 0 then nat (int n + i) else min (nat i) n)"

definition slice_to :: "int \<Rightarrow> 'a list \<Rightarrow> 'a list" where
  \<comment> \<open>\<open>xs[:j]\<close>\<close>
  "slice_to j xs = take (py_index (length xs) j) xs"

definition slice_from :: "int \<Rightarrow> 'a list \<Rightarrow> 'a list" where
  \<comment> \<open>\<open>xs[i:]\<close>\<close>
  "slice_from i xs = drop (py_index (length xs) i) xs"

definition slice :: "int \<Rightarrow> int \<Rightarrow> 'a list \<Rightarrow> 'a list" where
  \<comment> \<open>\<open>xs[i:j]\<close>\<close>
  "slice i j xs =
     (let a = py_index (length xs) i; b = py_index (length xs) j in take (b - a) (drop a xs))"

definition broadcast2 :: "('a \<Rightarrow> 'b \<Rightarrow> 'c) \<Rightarrow> 'a list \<Rightarrow> 'b list \<Rightarrow> error + 'c list" where
  \<comment> \<open>an elementwise binary operation along dimension 0: equal sizes combine pointwise,
      a size of one is broadcast, any other pair of sizes is a shape error\<close>
  "broadcast2 f xs ys =
     (if length xs = length ys then Inr (map2 f xs ys)
      else case ys of
        [y] \<Rightarrow> Inr (map (\<lambda>x. f x y) xs)
      | _ \<Rightarrow> (case xs of [x] \<Rightarrow> Inr (map (\<lambda>y. f x y) ys) | _ \<Rightarrow> Inl RuntimeError))"

fun max_from :: "real \<Rightarrow> nat \<Rightarrow> nat \<Rightarrow> real list \<Rightarrow> real \<times> nat" where
  "max_from best bi i [] = (best, bi)"
| "max_from best bi i (v # vs) =
     (if best < v then max_from v i (Suc i) vs else max_from best bi (Suc i) vs)"

definition torch_max :: "real list \<Rightarrow> error + real \<times> nat" where
  \<comment> \<open>\<open>torch.max(row, dim)\<close> on one row: the maximum and an index where it is attained;
      the first such index when there are several, an \<open>IndexError\<close> when the reduction
      dimension is empty\<close>
  "torch_max row = (case row of [] \<Rightarrow> Inl IndexError | v # vs \<Rightarrow> Inr (max_from v 0 1 vs))"

definition max_softmax ::
  "(real list \<Rightarrow> real list) \<Rightarrow> real list list \<Rightarrow> error + (real \<times> nat) list" where
  \<comment> \<open>\<open>torch.max(torch.nn.functional.softmax(logits, dim=1), dim=1)\<close>, given the softmax of
      a row: the library computes it in floating point, so it is a parameter\<close>
  "max_softmax sm logits = map_err (\<lambda>row. torch_max (sm row)) logits"

definition clamp_max :: "int \<Rightarrow> int \<Rightarrow> int" where
  \<comment> \<open>\<open>torch.clamp(v, max=m)\<close>\<close>
  "clamp_max m v = min v m"

definition attack_success :: "int list \<Rightarrow> (real \<times> nat) list \<Rightarrow> error + int list" where
  \<comment> \<open>\<open>torch.clamp(torch.abs(targets - torch.max(softmax(logits), dim=1)[1]), max=1)\<close>,
      given the result of the \<open>torch.max\<close>. Labels and indices are \<open>int64\<close>; a class index
      and a label accepted by the loss are far from the ends of that range, so the
      difference does not wrap and integers are used.\<close>
  "attack_success targets mx =
     ebind (broadcast2 (\<lambda>t p. t - p) targets (map (\<lambda>r. int (snd r)) mx))
       (\<lambda>d. Inr (map (\<lambda>v. clamp_max 1 \<bar>v\<bar>) d))"

definition concatenate :: "'a list option \<Rightarrow> 'a list \<Rightarrow> 'a list option" where
  \<comment> \<open>Modelled from the spec: \<open>common.numpy.concatenate\<close> is not part of the source file.
      The accumulators start as \<open>None\<close> and are "concatenated across batches".\<close>
  "concatenate a1 a2 = (case a1 of None \<Rightarrow> Some a2 | Some a \<Rightarrow> Some (a @ a2))"

definition acc_values :: "'a list option \<Rightarrow> 'a list" where
  \<comment> \<open>what an accumulator holds\<close>
  "acc_values a = (case a of None \<Rightarrow> [] | Some xs \<Rightarrow> xs)"

datatype metric = Num real | NaN

definition numpy_mean :: "real list option \<Rightarrow> error + metric" where
  \<comment> \<open>\<open>numpy.mean\<close>: the mean of an empty array is \<open>nan\<close>, the mean of \<open>None\<close> raises;
      the value of the mean is the exact one, its rounding is not modelled\<close>
  "numpy_mean a =
     (case a of None \<Rightarrow> Inl TypeError
      | Some xs \<Rightarrow> Inr (if xs = [] then NaN else Num (sum_list xs / real (length xs))))"


section \<open>Collaborators and the trainer\<close>

datatype config_text = Name string | Str real

datatype 'x event =
    AddText string config_text
  | AddScalar string metric int
  | AddImages string "'x list" int

record ('x, 'm) attack =
  attack_class_name :: string
  attack_norm :: "('x list \<Rightarrow> real list) option"
  attack_run :: "'m \<Rightarrow> 'x list \<Rightarrow> int list \<Rightarrow> 'x list \<times> real list"

record objective =
  objective_class_name :: string
  objective_is_instance :: bool

text \<open>
  The model, the optimizer, the loss functions of \<open>common.torch\<close>, the softmax of the
  tensor library (the function of one row of logits that \<open>torch.nn.functional.softmax\<close>
  computes, in floating point) and the test pass of the base class \<open>NormalTraining\<close> are
  parameters: the source file calls them and does not define them. \<open>attack_run\<close>
  receives the targets that \<open>objective.set\<close> binds.
\<close>

record ('x, 'm) environment =
  model_eval :: "'m \<Rightarrow> 'm"
  model_train :: "'m \<Rightarrow> 'm"
  model_forward :: "'m \<Rightarrow> 'x list \<Rightarrow> real list list"
  softmax :: "real list \<Rightarrow> real list"
  classification_loss :: "real list list \<Rightarrow> int list \<Rightarrow> real"
  classification_loss_none :: "real list list \<Rightarrow> int list \<Rightarrow> real list"
  classification_error :: "real list list \<Rightarrow> int list \<Rightarrow> real"
  classification_error_none :: "real list list \<Rightarrow> int list \<Rightarrow> real list"
  optimizer_step :: "'m \<Rightarrow> 'x list \<Rightarrow> int list \<Rightarrow> real \<Rightarrow> 'm"
  base_test :: "'m \<Rightarrow> int \<Rightarrow> ('x list \<times> int list) list \<Rightarrow> 'x event list"

record ('x, 'm) trainer =
  model :: 'm
  trainset :: "('x list \<times> int list) list"
  testset :: "('x list \<times> int list) list"
  writer :: "'x event list"
  attack :: "('x, 'm) attack"
  objective :: objective
  fraction :: real
  max_batches :: nat

definition init ::
  "'m \<Rightarrow> ('x list \<times> int list) list \<Rightarrow> ('x list \<times> int list) list \<Rightarrow> ('x, 'm) attack \<Rightarrow>
   objective \<Rightarrow> real \<Rightarrow> error + 'x event list \<Rightarrow> error + ('x, 'm) trainer" where
  \<comment> \<open>\<open>AdversarialTraining.__init__\<close>; \<open>base\<close> is the outcome of the constructor of the base
      class: an error, or the writer as that constructor leaves it\<close>
  "init mdl trs tes att obj fraction_arg base =
     (if \<not> fraction_arg > 0 then Inl AssertionError
      else if \<not> fraction_arg \<le> 1 then Inl AssertionError
      else if \<not> objective_is_instance obj then Inl AssertionError
      else if attack_norm att = None then Inl AssertionError
      else case base of
        Inl e \<Rightarrow> Inl e
      | Inr w \<Rightarrow>
          Inr \<lparr> model = mdl, trainset = trs, testset = tes,
                writer = w @ [AddText ''config/attack'' (Name (attack_class_name att)),
                              AddText ''config/objective'' (Name (objective_class_name obj)),
                              AddText ''config/fraction'' (Str fraction_arg)],
                attack = att, objective = obj,
                fraction = fsub 1 fraction_arg, max_batches = 10 \<rparr>)"


section \<open>The training step\<close>

record accumulators =
  cl_losses :: "real list option"
  cl_errors :: "real list option"
  cl_confidences :: "real list option"
  successes :: "int list option"
  losses :: "real list option"
  errors :: "real list option"
  confidences :: "real list option"

definition no_accumulators :: accumulators where
  "no_accumulators =
     \<lparr> cl_losses = None, cl_errors = None, cl_confidences = None, successes = None,
       losses = None, errors = None, confidences = None \<rparr>"

text \<open>The variables of one iteration of the training loop, as they stand at its end.\<close>

record ('x, 'm) locals =
  l_split :: int
  l_fraction :: real
  l_clean_inputs :: "'x list"
  l_adversarial_perturbations :: "'x list"
  l_adversarial_inputs :: "'x list"
  l_clean_targets :: "int list"
  l_adversarial_targets :: "int list"
  l_inputs :: "'x list"
  l_clean_logits :: "real list list"
  l_adversarial_logits :: "real list list"
  l_adversarial_loss :: real
  l_adversarial_error :: real
  l_clean_loss :: real
  l_clean_error :: real
  l_loss :: real
  l_accumulators :: accumulators
  l_model :: 'm

definition train_batch ::
  "('x::plus, 'm) environment \<Rightarrow> ('x, 'm) trainer \<Rightarrow> accumulators \<Rightarrow> 'x list \<times> int list \<Rightarrow>
   error + ('x, 'm) locals" where
  \<comment> \<open>the body of the loop of \<open>train\<close>, up to \<open>optimizer.step()\<close>\<close>
  "train_batch env self acc batch =
     (let inputs = fst batch; targets = snd batch;
          n = int (length inputs);
          split = py_int (fmul (fraction self) (float_of_int n))
      in if float_of_int n = 0 then Inl ZeroDivisionError
         else
           let fraction1 = fdiv (float_of_int split) (float_of_int n);
               clean_inputs = slice_to split inputs;
               adversarial_inputs0 = slice_from split inputs;
               clean_targets = slice_to split targets;
               adversarial_targets = slice_from split targets;
               m1 = model_eval env (model self);
               perturbations = fst (attack_run (attack self) m1 adversarial_inputs0 adversarial_targets)
           in ebind (broadcast2 (+) adversarial_inputs0 perturbations) (\<lambda>adversarial_inputs.
           let inputs' = (if length adversarial_inputs < length inputs
                          then clean_inputs @ adversarial_inputs else adversarial_inputs);
               m2 = model_train env m1;
               logits = model_forward env m2 inputs';
               clean_logits = slice_to split logits;
               adversarial_logits = slice_from split logits;
               adversarial_loss = classification_loss env adversarial_logits adversarial_targets;
               adversarial_error = classification_error env adversarial_logits adversarial_targets;
               both = (length adversarial_inputs < length inputs');
               clean_loss = (if both then classification_loss env clean_logits clean_targets else 0);
               clean_error = (if both then classification_error env clean_logits clean_targets else 0);
               loss = (if both then fsub 1 fraction1 * clean_loss + fraction1 * adversarial_loss
                       else adversarial_loss)
           in ebind (max_softmax (softmax env) clean_logits) (\<lambda>cl_mx.
              ebind (max_softmax (softmax env) adversarial_logits) (\<lambda>mx.
              ebind (attack_success adversarial_targets mx) (\<lambda>succ.
              Inr \<lparr> l_split = split, l_fraction = fraction1, l_clean_inputs = clean_inputs,
                    l_adversarial_perturbations = perturbations,
                    l_adversarial_inputs = adversarial_inputs,
                    l_clean_targets = clean_targets, l_adversarial_targets = adversarial_targets,
                    l_inputs = inputs', l_clean_logits = clean_logits,
                    l_adversarial_logits = adversarial_logits,
                    l_adversarial_loss = adversarial_loss, l_adversarial_error = adversarial_error,
                    l_clean_loss = clean_loss, l_clean_error = clean_error,
                    l_loss = loss,
                    l_accumulators =
                      \<lparr> cl_losses = concatenate (cl_losses acc)
                                      (classification_loss_none env clean_logits clean_targets),
                        cl_errors = concatenate (cl_errors acc)
                                      (classification_error_none env clean_logits clean_targets),
                        cl_confidences = concatenate (cl_confidences acc) (map fst cl_mx),
                        successes = concatenate (successes acc) succ,
                        losses = concatenate (losses acc)
                                   (classification_loss_none env adversarial_logits adversarial_targets),
                        errors = concatenate (errors acc)
                                   (classification_error_none env adversarial_logits adversarial_targets),
                        confidences = concatenate (confidences acc) (map fst mx) \<rparr>,
                    l_model = optimizer_step env m2 inputs' targets loss \<rparr>)))))"

definition mean_of_ints :: "int list option \<Rightarrow> error + metric" where
  "mean_of_ints a = numpy_mean (map_option (map real_of_int) a)"

definition train_summary :: "int \<Rightarrow> ('x, 'm) locals \<Rightarrow> error + 'x event list" where
  \<comment> \<open>the writes of the last iteration of \<open>train\<close>, in program order\<close>
  "train_summary epoch l =
     (let global_step = epoch;
          acc = l_accumulators l;
          both = (length (l_adversarial_inputs l) < length (l_inputs l))
      in ebind (if both
                then ebind (numpy_mean (cl_losses acc)) (\<lambda>a.
                     ebind (numpy_mean (cl_errors acc)) (\<lambda>b.
                     ebind (numpy_mean (cl_confidences acc)) (\<lambda>c.
                     Inr [AddScalar ''train/loss'' a global_step,
                          AddScalar ''train/error'' b global_step,
                          AddScalar ''train/confidence'' c global_step])))
                else Inr []) (\<lambda>clean_scalars.
         ebind (mean_of_ints (successes acc)) (\<lambda>s.
         ebind (numpy_mean (losses acc)) (\<lambda>lo.
         ebind (numpy_mean (errors acc)) (\<lambda>er.
         ebind (numpy_mean (confidences acc)) (\<lambda>co.
         Inr (clean_scalars @
              [AddScalar ''train/adversarial_success'' s global_step,
               AddScalar ''train/adversarial_loss'' lo global_step,
               AddScalar ''train/adversarial_error'' er global_step,
               AddScalar ''train/adversarial_confidence'' co global_step] @
              (if both
               then [AddImages ''train/images'' (slice_to (min 8 (l_split l)) (l_inputs l)) global_step]
               else []) @
              [AddImages ''train/adversarial_images''
                 (slice (l_split l) (l_split l + 8) (l_inputs l)) global_step])))))))"

fun train_loop ::
  "('x::plus, 'm) environment \<Rightarrow> int \<Rightarrow> nat \<Rightarrow> nat \<Rightarrow> accumulators \<Rightarrow> ('x, 'm) trainer \<Rightarrow>
   ('x list \<times> int list) list \<Rightarrow> error + ('x, 'm) trainer" where
  "train_loop env epoch batches b acc self [] = Inr self"
| "train_loop env epoch batches b acc self (batch # rest) =
     ebind (train_batch env self acc batch) (\<lambda>l.
     ebind (if int b = int batches - 1 then train_summary epoch l else Inr []) (\<lambda>evs.
       train_loop env epoch batches (b + 1) (l_accumulators l)
         (self\<lparr>model := l_model l, writer := writer self @ evs\<rparr>) rest))"

definition train :: "('x::plus, 'm) environment \<Rightarrow> ('x, 'm) trainer \<Rightarrow> int \<Rightarrow> error + ('x, 'm) trainer" where
  "train env self epoch =
     train_loop env epoch (length (trainset self)) 0 no_accumulators self (trainset self)"


section \<open>The adversarial test pass\<close>

record test_accumulators =
  t_losses :: "real list option"
  t_errors :: "real list option"
  t_confidences :: "real list option"
  t_successes :: "int list option"
  t_norms :: "real list option"
  t_objectives :: "real list option"

definition no_test_accumulators :: test_accumulators where
  "no_test_accumulators =
     \<lparr> t_losses = None, t_errors = None, t_confidences = None, t_successes = None,
       t_norms = None, t_objectives = None \<rparr>"

definition test_batch ::
  "('x::plus, 'm) environment \<Rightarrow> ('x, 'm) trainer \<Rightarrow> test_accumulators \<Rightarrow> 'x list \<times> int list \<Rightarrow>
   error + test_accumulators" where
  \<comment> \<open>the body of the loop of \<open>test\<close> after the check of the cap\<close>
  "test_batch env self acc batch =
     (let inputs = fst batch; targets = snd batch;
          run = attack_run (attack self) (model self) inputs targets;
          perturbations = fst run;
          objectives = concatenate (t_objectives acc) (snd run)
      in ebind (broadcast2 (+) inputs perturbations) (\<lambda>inputs'.
         let logits = model_forward env (model self) inputs'
         in ebind (max_softmax (softmax env) logits) (\<lambda>mx.
            ebind (attack_success targets mx) (\<lambda>succ.
            case attack_norm (attack self) of
              None \<Rightarrow> Inl TypeError
            | Some attack_norm_fn \<Rightarrow>
                Inr \<lparr> t_losses = concatenate (t_losses acc) (classification_loss_none env logits targets),
                      t_errors = concatenate (t_errors acc) (classification_error_none env logits targets),
                      t_confidences = concatenate (t_confidences acc) (map fst mx),
                      t_successes = concatenate (t_successes acc) succ,
                      t_norms = concatenate (t_norms acc) (attack_norm_fn perturbations),
                      t_objectives = objectives \<rparr>))))"

fun test_loop ::
  "('x::plus, 'm) environment \<Rightarrow> ('x, 'm) trainer \<Rightarrow> nat \<Rightarrow> test_accumulators \<Rightarrow>
   ('x list \<times> int list) list \<Rightarrow> error + nat \<times> test_accumulators" where
  "test_loop env self b acc [] = Inr (b, acc)"
| "test_loop env self b acc (batch # rest) =
     (if b \<ge> max_batches self then Inr (b, acc)
      else ebind (test_batch env self acc batch) (\<lambda>acc'. test_loop env self (b + 1) acc' rest))"

definition test_summary :: "int \<Rightarrow> test_accumulators \<Rightarrow> error + 'x event list" where
  "test_summary epoch acc =
     (let global_step = epoch + 1
      in ebind (numpy_mean (t_losses acc)) (\<lambda>lo.
         ebind (numpy_mean (t_errors acc)) (\<lambda>er.
         ebind (numpy_mean (t_confidences acc)) (\<lambda>co.
         ebind (mean_of_ints (t_successes acc)) (\<lambda>su.
         ebind (numpy_mean (t_norms acc)) (\<lambda>no.
         ebind (numpy_mean (t_objectives acc)) (\<lambda>ob.
         Inr [AddScalar ''test/adversarial_loss'' lo global_step,
              AddScalar ''test/adversarial_error'' er global_step,
              AddScalar ''test/adversarial_confidence'' co global_step,
              AddScalar ''test/adversarial_success'' su global_step,
              AddScalar ''test/adversarial_norm'' no global_step,
              AddScalar ''test/adversarial_objective'' ob global_step])))))))"

definition test :: "('x::plus, 'm) environment \<Rightarrow> ('x, 'm) trainer \<Rightarrow> int \<Rightarrow> error + ('x, 'm) trainer" where
  "test env self epoch =
     (let base_events = base_test env (model self) epoch (testset self);
          self1 = self\<lparr>model := model_eval env (model self), writer := writer self @ base_events\<rparr>
      in ebind (test_loop env self1 0 no_test_accumulators (testset self1)) (\<lambda>r.
         ebind (test_summary epoch (snd r)) (\<lambda>evs.
         Inr (self1\<lparr>writer := writer self1 @ evs\<rparr>))))"



section \<open>Reading the writer's log\<close>

fun is_text :: "'x event \<Rightarrow> bool" where
  "is_text (AddText tag v) = True"
| "is_text e = False"

fun is_scalar :: "'x event \<Rightarrow> bool" where
  "is_scalar (AddScalar tag v s) = True"
| "is_scalar e = False"

fun is_images :: "'x event \<Rightarrow> bool" where
  "is_images (AddImages tag v s) = True"
| "is_images e = False"




fun scalars_before_images :: "'x event list \<Rightarrow> bool" where
  \<comment> \<open>no scalar is written after an image grid\<close>
  "scalars_before_images [] = True"
| "scalars_before_images (e # es) =
     (if is_images e then list_all (\<lambda>e'. \<not> is_scalar e') es else scalars_before_images es)"


section \<open>Example collaborators\<close>

text \<open>
  Concrete collaborators on which the definitions can be run: examples are reals, the
  model state counts the optimizer steps, the logits of an example \<open>x\<close> are \<open>[x, 0]\<close>,
  the softmax is the exact one, the loss of an example is the sum of its logits, and the
  attack adds one to every input.
\<close>

definition demo_softmax :: "real list \<Rightarrow> real list" where
  "demo_softmax row = map (\<lambda>v. exp v / sum_list (map exp row)) row"

definition demo_attack :: "(real, nat) attack" where
  "demo_attack =
     \<lparr> attack_class_name = ''BatchGradientDescent'',
       attack_norm = Some (map abs),
       attack_run = (\<lambda>m xs ts. (map (\<lambda>x. 1) xs, map (\<lambda>x. 0) xs)) \<rparr>"

definition demo_objective :: objective where
  "demo_objective = \<lparr> objective_class_name = ''UntargetedF0Objective'', objective_is_instance = True \<rparr>"

definition demo_loss_none :: "real list list \<Rightarrow> int list \<Rightarrow> real list" where
  "demo_loss_none rows ts = map sum_list rows"

definition demo_loss :: "real list list \<Rightarrow> int list \<Rightarrow> real" where
  "demo_loss rows ts = (if rows = [] then 0 else sum_list (map sum_list rows) / real (length rows))"

definition demo_env :: "(real, nat) environment" where
  "demo_env =
     \<lparr> model_eval = (\<lambda>m. m),
       model_train = (\<lambda>m. m),
       model_forward = (\<lambda>m xs. map (\<lambda>x. [x, 0]) xs),
       softmax = demo_softmax,
       classification_loss = demo_loss,
       classification_loss_none = demo_loss_none,
       classification_error = (\<lambda>rows ts. 0),
       classification_error_none = (\<lambda>rows ts. map (\<lambda>r. 0) rows),
       optimizer_step = (\<lambda>m xs ts loss. Suc m),
       base_test = (\<lambda>m epoch batches. []) \<rparr>"

definition demo_trainer ::
  "real \<Rightarrow> (real list \<times> int list) list \<Rightarrow> (real list \<times> int list) list \<Rightarrow> (real, nat) trainer" where
  \<comment> \<open>the trainer that \<open>init\<close> builds from the example collaborators and the fraction \<open>f\<close>,
      the base constructor having written nothing\<close>
  "demo_trainer f trs tes =
     \<lparr> model = 0, trainset = trs, testset = tes,
       writer = [AddText ''config/attack'' (Name ''BatchGradientDescent''),
                 AddText ''config/objective'' (Name ''UntargetedF0Objective''),
                 AddText ''config/fraction'' (Str f)],
       attack = demo_attack, objective = demo_objective,
       fraction = fsub 1 f, max_batches = 10 \<rparr>"

definition tiny_fraction :: real where
  \<comment> \<open>a float in \<open>(0, 1]\<close> below half the distance from \<open>1.0\<close> to the float before it\<close>
  "tiny_fraction = 1 / 2 ^ 60"

definition point_two :: real where
  \<comment> \<open>the float nearest to 0.2\<close>
  "point_two = 3602879701896397 / 2 ^ 54"


section \<open>Properties of the rounding\<close>

lemma ilog2_ge1:
  assumes "1 \<le> x"
  shows "2 powi (ilog2 x) \<le> x \<and> x < 2 powi (ilog2 x + 1)"
proof -
  define n where "n = \<lfloor>x\<rfloor>"
  have n1: "1 \<le> n" using assms by (simp add: n_def)
  then have npos: "0 < n" by simp
  have b1: "1 \<le> bitlen n" using n1 by (simp add: bitlen_alt_def)
  from bitlen_bounds[OF npos]
  have lo: "2 ^ nat (bitlen n - 1) \<le> n" and hi: "n < 2 ^ nat (bitlen n)" by auto
  have e: "ilog2 x = bitlen n - 1" using assms by (simp add: ilog2_def n_def)
  have "(2::real) powi (bitlen n - 1) = 2 ^ nat (bitlen n - 1)"
    using b1 by (simp add: power_int_def)
  also have "\<dots> = of_int (2 ^ nat (bitlen n - 1))" by simp
  also have "\<dots> \<le> of_int n" using lo by (simp only: of_int_le_iff)
  also have "\<dots> \<le> x" by (simp add: n_def)
  finally have A: "2 powi (ilog2 x) \<le> x" by (simp add: e)
  have "n + 1 \<le> 2 ^ nat (bitlen n)" using hi by simp
  then have "real_of_int (n + 1) \<le> of_int (2 ^ nat (bitlen n))" by (simp only: of_int_le_iff)
  moreover have "x < of_int (n + 1)" by (simp add: n_def)
  ultimately have "x < 2 ^ nat (bitlen n)" by simp
  moreover have "(2::real) powi (bitlen n - 1 + 1) = 2 ^ nat (bitlen n)"
    using b1 by (simp add: power_int_def)
  ultimately have B: "x < 2 powi (ilog2 x + 1)" by (simp add: e)
  from A B show ?thesis by simp
qed

lemma ilog2_lt1:
  assumes "0 < x" "x < 1"
  shows "2 powi (ilog2 x) \<le> x \<and> x < 2 powi (ilog2 x + 1)"
proof -
  define y where "y = 1 / x"
  define c where "c = \<lceil>y\<rceil>"
  define b where "b = bitlen (c - 1)"
  have y1: "1 < y" using assms by (simp add: y_def)
  have c2: "2 \<le> c" using y1 by (simp add: c_def le_ceiling_iff)
  then have cpos: "0 < c - 1" by simp
  have b1: "1 \<le> b" using cpos by (simp add: b_def bitlen_alt_def)
  from bitlen_bounds[OF cpos]
  have lo: "2 ^ nat (b - 1) \<le> c - 1" and hi: "c - 1 < 2 ^ nat b" by (auto simp: b_def)
  have e: "ilog2 x = - b" using assms by (simp add: ilog2_def b_def c_def y_def)
  have "real_of_int (c - 1) < y" unfolding c_def by linarith
  moreover have "2 ^ nat (b - 1) \<le> real_of_int (c - 1)" using lo
    by (simp only: numeral_power_le_of_int_cancel_iff)
  ultimately have ylo: "2 ^ nat (b - 1) < y" by linarith
  have "c \<le> 2 ^ nat b" using hi by simp
  then have "real_of_int c \<le> 2 ^ nat b" by simp
  moreover have "y \<le> of_int c" unfolding c_def by linarith
  ultimately have yhi: "y \<le> 2 ^ nat b" by linarith
  have xy: "x = 1 / y" using assms by (simp add: y_def)
  have p1: "(2::real) powi (- b) = 1 / 2 ^ nat b"
    using b1 by (simp add: power_int_def field_simps)
  have p2: "(2::real) powi (1 - b) = 1 / 2 ^ nat (b - 1)"
    using b1 by (cases "b = 1") (simp_all add: power_int_def field_simps nat_diff_distrib)
  have A: "1 / 2 ^ nat b \<le> x" unfolding xy using yhi y1
    by (simp add: frac_le)
  have B: "x < 1 / 2 ^ nat (b - 1)" unfolding xy using ylo
    by (simp add: frac_less2)
  have e2: "ilog2 x + 1 = 1 - b" using e by simp
  show ?thesis using A B unfolding e2 p2 unfolding e p1 by simp
qed

lemma ilog2_bounds:
  "0 < x \<Longrightarrow> 2 powi (ilog2 x) \<le> x \<and> x < 2 powi (ilog2 x + 1)"
  using ilog2_ge1[of x] ilog2_lt1[of x] by (cases "1 \<le> x") auto

lemma round_half_even_close: "\<bar>real_of_int (round_half_even y) - y\<bar> \<le> 1 / 2"
  unfolding round_half_even_def Let_def by (auto; linarith)

lemma round_half_even_of_int: "round_half_even (of_int n) = n"
  by (simp add: round_half_even_def)

lemma round_half_even_nonneg: "0 \<le> y \<Longrightarrow> 0 \<le> round_half_even y"
  unfolding round_half_even_def Let_def by (auto; linarith)

lemma round_half_even_mono_int: "y \<le> of_int m \<Longrightarrow> round_half_even y \<le> m"
  unfolding round_half_even_def Let_def
  by (auto simp: floor_le_iff; linarith)

lemma ilog2_less: 
  assumes "0 < x" "x < 2 powi k"
  shows "ilog2 x < k"
proof (rule ccontr)
  assume "\<not> ilog2 x < k"
  then have "k \<le> ilog2 x" by simp
  then have "(2::real) powi k \<le> 2 powi (ilog2 x)" by (intro power_int_increasing) auto
  with ilog2_bounds[OF assms(1)] assms(2) show False by linarith
qed

lemma ilog2_ge:
  assumes "0 < x" "2 powi k \<le> x"
  shows "k \<le> ilog2 x"
proof (rule ccontr)
  assume "\<not> k \<le> ilog2 x"
  then have "ilog2 x + 1 \<le> k" by simp
  then have "(2::real) powi (ilog2 x + 1) \<le> 2 powi k" by (intro power_int_increasing) auto
  with ilog2_bounds[OF assms(1)] assms(2) show False by linarith
qed

lemma round64_pos_eq:
  "0 < x \<Longrightarrow> round64 x = of_int (round_half_even (x / 2 powi (ilog2 x - 52))) * 2 powi (ilog2 x - 52)"
  by (simp add: round64_def Let_def)

lemma round64_nonneg: 
  assumes "0 \<le> x" shows "0 \<le> round64 x"
proof (cases "x = 0")
  case True then show ?thesis by (simp add: round64_def)
next
  case False
  with assms have pos: "0 < x" by simp
  have "0 \<le> x / 2 powi (ilog2 x - 52)" using pos by simp
  then have "0 \<le> round_half_even (x / 2 powi (ilog2 x - 52))" by (rule round_half_even_nonneg)
  then show ?thesis unfolding round64_pos_eq[OF pos] by simp
qed

lemma round64_of_nat:
  assumes "n < 2 ^ 53"
  shows "round64 (of_nat n) = of_nat n"
proof (cases "n = 0")
  case True then show ?thesis by (simp add: round64_def)
next
  case False
  define x :: real where "x = of_nat n"
  have pos: "0 < x" using False by (simp add: x_def)
  have "x < 2 ^ 53" using assms unfolding x_def
    by (simp only: of_nat_less_numeral_power_cancel_iff)
  then have "x < 2 powi 53" by simp
  then have "ilog2 x < 53" by (rule ilog2_less[OF pos])
  define k where "k = nat (52 - ilog2 x)"
  have q: "(2::real) powi (ilog2 x - 52) = 1 / 2 ^ k"
  proof -
    have "ilog2 x - 52 = - int k" using \<open>ilog2 x < 53\<close> by (simp add: k_def)
    then show ?thesis by (simp add: power_int_minus_divide)
  qed
  have "x / (1 / 2 ^ k) = of_int (int n * 2 ^ k)" by (simp add: x_def)
  then have "round_half_even (x / (1 / 2 ^ k)) = int n * 2 ^ k"
    by (simp only: round_half_even_of_int)
  then show ?thesis unfolding x_def[symmetric] round64_pos_eq[OF pos] q by (simp add: x_def)
qed

lemma round64_rel_upper:
  assumes "0 < x"
  shows "round64 x \<le> x * (1 + 1 / 2 ^ 53)"
proof -
  define q :: real where "q = 2 powi (ilog2 x - 52)"
  have qpos: "0 < q" by (simp add: q_def)
  have "real_of_int (round_half_even (x / q)) \<le> x / q + 1 / 2"
    using round_half_even_close[of "x / q"] by linarith
  then have "real_of_int (round_half_even (x / q)) * q \<le> (x / q + 1 / 2) * q"
    using qpos by (simp only: mult_le_cancel_right_pos)
  also have "\<dots> = x + q / 2" using qpos by (simp add: field_simps)
  finally have 1: "round64 x \<le> x + q / 2" unfolding round64_pos_eq[OF assms] q_def .
  have "q = 2 powi (ilog2 x) / 2 powi 52" unfolding q_def by (rule power_int_diff) simp
  then have "q / 2 = 2 powi (ilog2 x) / 2 ^ 53" by simp
  also have "\<dots> \<le> x / 2 ^ 53" using ilog2_bounds[OF assms] by (simp add: divide_right_mono)
  finally have "q / 2 \<le> x / 2 ^ 53" .
  with 1 show ?thesis by (simp add: field_simps)
qed

lemma round64_below_one:
  assumes "0 < x" "x < 1" "round64 x < 1"
  shows "round64 x \<le> 1 - 1 / 2 ^ 53"
proof -
  define e where "e = ilog2 x"
  define q :: real where "q = 2 powi (e - 52)"
  define m where "m = round_half_even (x / q)"
  have qpos: "0 < q" by (simp add: q_def)
  have r: "round64 x = of_int m * q" unfolding round64_pos_eq[OF assms(1)] m_def q_def e_def ..
  have "x < 2 powi 0" using assms by simp
  then have e0: "e < 0" unfolding e_def by (rule ilog2_less[OF assms(1)])
  have "x < 2 powi (e + 1)" using ilog2_bounds[OF assms(1)] by (simp add: e_def)
  also have "(2::real) powi (e + 1) = 2 powi (e - 52) * 2 powi 53"
    using power_int_add[of "2::real" "e - 52" 53] by (simp add: algebra_simps)
  finally have "x < q * 2 ^ 53" by (simp add: q_def)
  then have "x / q < 2 ^ 53" using qpos by (simp add: field_simps)
  then have "x / q \<le> of_int (2 ^ 53)" by simp
  then have m53: "m \<le> 2 ^ 53" unfolding m_def by (rule round_half_even_mono_int)
  have m0: "0 \<le> m" unfolding m_def using assms qpos by (intro round_half_even_nonneg) simp
  show ?thesis
  proof (cases "e = -1")
    case True
    then have q53: "q = 1 / 2 ^ 53" by (simp add: q_def)
    from assms(3) have "real_of_int m < 2 ^ 53" unfolding r q53 by simp
    then have "m < 2 ^ 53" by simp
    then have "m + 1 \<le> 2 ^ 53" by simp
    then have "real_of_int (m + 1) \<le> 2 ^ 53" by (simp only: of_int_le_numeral_power_cancel_iff)
    then have "real_of_int m \<le> 2 ^ 53 - 1" by simp
    then show ?thesis unfolding r q53 by (simp add: field_simps)
  next
    case False
    with e0 have "e - 52 \<le> -54" by simp
    then have "q \<le> 2 powi (-54)" unfolding q_def by (intro power_int_increasing) auto
    then have q54: "q \<le> 1 / 2 ^ 54" by simp
    have "real_of_int m \<le> 2 ^ 53" using m53 by (simp only: of_int_le_numeral_power_cancel_iff)
    then have "real_of_int m * q \<le> 2 ^ 53 * (1 / 2 ^ 54)"
      using q54 qpos m0 by (intro mult_mono) auto
    then show ?thesis unfolding r by simp
  qed
qed

lemma round64_zero: "round64 0 = 0"
  by (simp add: round64_def)

lemma round64_abs_upper:
  assumes "0 < x"
  shows "round64 x \<le> x + 2 powi (ilog2 x - 53)"
proof -
  define q :: real where "q = 2 powi (ilog2 x - 52)"
  have qpos: "0 < q" by (simp add: q_def)
  have "real_of_int (round_half_even (x / q)) \<le> x / q + 1 / 2"
    using round_half_even_close[of "x / q"] by linarith
  then have "real_of_int (round_half_even (x / q)) * q \<le> (x / q + 1 / 2) * q"
    using qpos by (simp only: mult_le_cancel_right_pos)
  also have "\<dots> = x + q / 2" using qpos by (simp add: field_simps)
  finally have 1: "round64 x \<le> x + q / 2" unfolding round64_pos_eq[OF assms] q_def .
  have "(2::real) powi (ilog2 x - 53) = 2 powi ((ilog2 x - 52) - 1)" by simp
  also have "\<dots> = q / 2 powi 1" unfolding q_def by (rule power_int_diff) simp
  finally have "(2::real) powi (ilog2 x - 53) = q / 2" by simp
  with 1 show ?thesis by simp
qed

lemma round64_lt_one:
  assumes "0 < x" "x < 1 - 1 / 2 ^ 54"
  shows "round64 x < 1"
proof -
  have "x < 2 powi 0" using assms by simp
  then have "ilog2 x < 0" by (rule ilog2_less[OF assms(1)])
  then have "ilog2 x - 53 \<le> -54" by simp
  then have "(2::real) powi (ilog2 x - 53) \<le> 2 powi (-54)" by (intro power_int_increasing) auto
  then have "(2::real) powi (ilog2 x - 53) \<le> 1 / 2 ^ 54" by simp
  with round64_abs_upper[OF assms(1)] assms(2) show ?thesis by linarith
qed

lemma float_of_int_nat: "n < 2 ^ 53 \<Longrightarrow> float_of_int (int n) = real n"
  by (simp add: float_of_int_def round64_of_nat)

lemma float_of_int_nonneg: "0 \<le> n \<Longrightarrow> 0 \<le> float_of_int n"
  by (simp add: float_of_int_def round64_nonneg)

lemma fsub_one_nonneg: "f \<le> 1 \<Longrightarrow> 0 \<le> fsub 1 f"
  by (simp add: fsub_def round64_nonneg)

lemma fmul_nonneg: "0 \<le> a \<Longrightarrow> 0 \<le> b \<Longrightarrow> 0 \<le> fmul a b"
  by (simp add: fmul_def round64_nonneg)

lemma fmul_lt:
  assumes "0 \<le> c" "c \<le> 1 - 1 / 2 ^ 53" "0 < n"
  shows "fmul c n < n"
proof (cases "c = 0")
  case True
  then show ?thesis using assms by (simp add: fmul_def round64_zero)
next
  case False
  then have pos: "0 < c * n" using assms by simp
  have "round64 (c * n) \<le> c * n * (1 + 1 / 2 ^ 53)" by (rule round64_rel_upper[OF pos])
  also have "\<dots> \<le> (1 - 1 / 2 ^ 53) * n * (1 + 1 / 2 ^ 53)"
    using assms by (intro mult_right_mono) auto
  also have "\<dots> = n * (1 - (1 / 2 ^ 53) * (1 / 2 ^ 53))" by (simp add: algebra_simps)
  also have "\<dots> < n * 1" using assms(3) by (intro mult_strict_left_mono) auto
  finally show ?thesis by (simp add: fmul_def)
qed

lemma round64_rel_lower:
  assumes "0 < x"
  shows "x * (1 - 1 / 2 ^ 53) \<le> round64 x"
proof -
  define q :: real where "q = 2 powi (ilog2 x - 52)"
  have qpos: "0 < q" by (simp add: q_def)
  have "x / q - 1 / 2 \<le> real_of_int (round_half_even (x / q))"
    using round_half_even_close[of "x / q"] by linarith
  then have "(x / q - 1 / 2) * q \<le> real_of_int (round_half_even (x / q)) * q"
    using qpos by (simp only: mult_le_cancel_right_pos)
  moreover have "(x / q - 1 / 2) * q = x - q / 2" using qpos by (simp add: field_simps)
  ultimately have 1: "x - q / 2 \<le> round64 x" unfolding round64_pos_eq[OF assms] q_def by simp
  have "q = 2 powi (ilog2 x) / 2 powi 52" unfolding q_def by (rule power_int_diff) simp
  then have "q / 2 = 2 powi (ilog2 x) / 2 ^ 53" by simp
  also have "\<dots> \<le> x / 2 ^ 53" using ilog2_bounds[OF assms] by (simp add: divide_right_mono)
  finally have "q / 2 \<le> x / 2 ^ 53" .
  with 1 show ?thesis by (simp add: field_simps)
qed

lemma floor_close:
  fixes a b :: real
  assumes "\<bar>a - b\<bar> < 1"
  shows "\<bar>\<lfloor>a\<rfloor> - \<lfloor>b\<rfloor>\<bar> \<le> 1"
proof -
  have "real_of_int \<lfloor>a\<rfloor> \<le> a" "a < real_of_int \<lfloor>a\<rfloor> + 1"
    "real_of_int \<lfloor>b\<rfloor> \<le> b" "b < real_of_int \<lfloor>b\<rfloor> + 1" by linarith+
  with assms have "real_of_int \<lfloor>a\<rfloor> < real_of_int \<lfloor>b\<rfloor> + 2"
    "real_of_int \<lfloor>b\<rfloor> < real_of_int \<lfloor>a\<rfloor> + 2" by linarith+
  then have "\<lfloor>a\<rfloor> < \<lfloor>b\<rfloor> + 2" "\<lfloor>b\<rfloor> < \<lfloor>a\<rfloor> + 2" by linarith+
  then show ?thesis by linarith
qed

lemma rounded_product_close:
  assumes "0 \<le> x" and "x < 1" and "0 \<le> n" and "n < 2 ^ 51"
  shows "\<bar>round64 (round64 x * n) - x * n\<bar> < 1"
proof (cases "x = 0 \<or> n = 0")
  case True
  then show ?thesis by (auto simp: round64_zero)
next
  case False
  with assms have xpos: "0 < x" and npos: "0 < n" by simp_all
  define u :: real where "u = 1 / 2 ^ 53"
  define c where "c = round64 x"
  define y where "y = x * n"
  have u: "0 < u" "u < 1" by (simp_all add: u_def)
  have cu: "c \<le> x * (1 + u)" unfolding c_def u_def by (rule round64_rel_upper[OF xpos])
  have cl: "x * (1 - u) \<le> c" unfolding c_def u_def by (rule round64_rel_lower[OF xpos])
  have "0 < x * (1 - u)" using xpos u by simp
  with cl have cpos: "0 < c" by linarith
  then have ppos: "0 < c * n" using npos by simp
  have su: "round64 (c * n) \<le> c * n * (1 + u)" unfolding u_def by (rule round64_rel_upper[OF ppos])
  have sl: "c * n * (1 - u) \<le> round64 (c * n)" unfolding u_def by (rule round64_rel_lower[OF ppos])
  have "c * n * (1 + u) \<le> x * (1 + u) * n * (1 + u)"
    using cu npos u by (intro mult_right_mono) auto
  with su have up: "round64 (c * n) \<le> y * ((1 + u) * (1 + u))" by (simp add: y_def algebra_simps)
  have "x * (1 - u) * n * (1 - u) \<le> c * n * (1 - u)"
    using cl npos u by (intro mult_right_mono) auto
  with sl have lo: "y * ((1 - u) * (1 - u)) \<le> round64 (c * n)" by (simp add: y_def algebra_simps)
  have ypos: "0 \<le> y" using xpos npos by (simp add: y_def)
  have "y \<le> 1 * n" unfolding y_def using assms(2) npos by (intro mult_right_mono) auto
  then have yn: "y < 2 ^ 51" using assms(4) by simp
  define k where "k = 2 * u + u * u"
  have kpos: "0 < k" by (simp add: k_def u_def)
  have "y * k \<le> 2 ^ 51 * k" using yn kpos by (intro mult_right_mono) auto
  moreover have "2 ^ 51 * k < 1" by (simp add: k_def u_def)
  ultimately have yk: "y * k < 1" by linarith
  have e1: "y * ((1 + u) * (1 + u)) = y + y * k" by (simp add: k_def algebra_simps)
  have e2: "y * ((1 - u) * (1 - u)) = y - y * k + 2 * (y * (u * u))" by (simp add: k_def algebra_simps)
  have "0 \<le> y * (u * u)" using ypos u by simp
  with up lo e1 e2 yk have "\<bar>round64 (c * n) - y\<bar> < 1" by linarith
  then show ?thesis by (simp add: c_def y_def)
qed


section \<open>Auxiliary facts\<close>

lemma ebind_Inr [simp]: "ebind (Inr v) f = f v"
  by (simp add: ebind_def)

lemma ebind_Inl [simp]: "ebind (Inl e) f = Inl e"
  by (simp add: ebind_def)

lemma ebind_eq_Inr: "ebind r f = Inr y \<longleftrightarrow> (\<exists>v. r = Inr v \<and> f v = Inr y)"
  by (cases r) simp_all

lemma max_from_mono:
  assumes "\<And>a b. (g a < g b) = (a < b)"
  shows "max_from (g b) bi i (map g vs) = (case max_from b bi i vs of (v, k) \<Rightarrow> (g v, k))"
  by (induction vs arbitrary: b bi i) (simp_all add: assms)

lemma sum_list_exp_pos: "row \<noteq> [] \<Longrightarrow> 0 < sum_list (map exp (row :: real list))"
  by (cases row) (auto intro!: add_pos_nonneg sum_list_nonneg)

lemma torch_max_demo_softmax:
  "torch_max (demo_softmax row) =
     (case torch_max row of Inl e \<Rightarrow> Inl e
      | Inr r \<Rightarrow> Inr (exp (fst r) / sum_list (map exp row), snd r))"
proof (cases row)
  case Nil
  then show ?thesis by (simp add: torch_max_def demo_softmax_def)
next
  case (Cons v vs)
  define S where "S = sum_list (map exp row)"
  have S: "0 < S" unfolding S_def using Cons by (intro sum_list_exp_pos) simp
  have mono: "\<And>a b. (exp a / S < exp b / S) = (a < b)" using S by (simp add: divide_less_cancel)
  have "demo_softmax row = map (\<lambda>v. exp v / S) row" by (simp add: demo_softmax_def S_def)
  then show ?thesis using max_from_mono[of "\<lambda>v. exp v / S", OF mono, of v 0 1 vs]
    by (simp add: torch_max_def Cons S_def split: prod.splits)
qed

lemma torch_max_Nil: "torch_max [] = Inl IndexError"
  by (simp add: torch_max_def)

lemma torch_max_Cons: "torch_max (v # vs) = Inr (max_from v 0 1 vs)"
  by (simp add: torch_max_def)

lemma slice_to_nonneg: "0 \<le> k \<Longrightarrow> slice_to k xs = take (nat k) xs"
  by (simp add: slice_to_def py_index_def min_def)

lemma slice_from_nonneg: "0 \<le> k \<Longrightarrow> slice_from k xs = drop (nat k) xs"
  by (simp add: slice_from_def py_index_def min_def)

lemma slice_to_from_append: "slice_to k xs @ slice_from k xs = xs"
  by (simp add: slice_to_def slice_from_def)

lemma length_slices: "length (slice_to k xs) + length (slice_from k xs) = length xs"
  by (simp add: slice_to_def slice_from_def py_index_def)

lemma slice_to_zero: "slice_to 0 xs = []"
  by (simp add: slice_to_def py_index_def)

lemma slice_from_zero: "slice_from 0 xs = xs"
  by (simp add: slice_from_def py_index_def)

lemma broadcast2_length:
  "broadcast2 f xs ys = Inr zs \<Longrightarrow> length ys = length xs \<Longrightarrow> zs = map2 f xs ys \<and> length zs = length xs"
  by (auto simp: broadcast2_def)

lemma broadcast2_length_ge:
  "broadcast2 f xs ys = Inr zs \<Longrightarrow> length xs \<noteq> 1 \<Longrightarrow> length zs = length xs"
  by (auto simp: broadcast2_def split: if_splits list.splits)

lemma train_batch_Inr:
  assumes "train_batch env self acc (xs, ts) = Inr l"
  shows "float_of_int (int (length xs)) \<noteq> 0"
    and "l_split l = py_int (fmul (fraction self) (float_of_int (int (length xs))))"
    and "l_fraction l = fdiv (float_of_int (l_split l)) (float_of_int (int (length xs)))"
    and "l_clean_inputs l = slice_to (l_split l) xs"
    and "l_clean_targets l = slice_to (l_split l) ts"
    and "l_adversarial_targets l = slice_from (l_split l) ts"
    and "l_adversarial_perturbations l =
           fst (attack_run (attack self) (model_eval env (model self))
                  (slice_from (l_split l) xs) (slice_from (l_split l) ts))"
    and "broadcast2 (+) (slice_from (l_split l) xs) (l_adversarial_perturbations l)
           = Inr (l_adversarial_inputs l)"
    and "l_inputs l = (if length (l_adversarial_inputs l) < length xs
                       then l_clean_inputs l @ l_adversarial_inputs l else l_adversarial_inputs l)"
    and "l_clean_logits l =
           slice_to (l_split l) (model_forward env (model_train env (model_eval env (model self))) (l_inputs l))"
    and "l_adversarial_logits l =
           slice_from (l_split l) (model_forward env (model_train env (model_eval env (model self))) (l_inputs l))"
    and "l_adversarial_loss l = classification_loss env (l_adversarial_logits l) (l_adversarial_targets l)"
    and "l_clean_loss l = (if length (l_adversarial_inputs l) < length (l_inputs l)
                           then classification_loss env (l_clean_logits l) (l_clean_targets l) else 0)"
    and "l_loss l = (if length (l_adversarial_inputs l) < length (l_inputs l)
                     then fsub 1 (l_fraction l) * l_clean_loss l + l_fraction l * l_adversarial_loss l
                     else l_adversarial_loss l)"
    and "\<exists>mx succ. max_softmax (softmax env) (l_adversarial_logits l) = Inr mx \<and>
           attack_success (l_adversarial_targets l) mx = Inr succ \<and>
           successes (l_accumulators l) = concatenate (successes acc) succ"
  using assms unfolding train_batch_def Let_def
  by (auto simp: ebind_eq_Inr split: if_splits)

lemma split_nonneg:
  assumes "f \<le> 1" "fraction self = fsub 1 f" "train_batch env self acc (xs, ts) = Inr l"
  shows "l_split l = \<lfloor>fmul (fsub 1 f) (float_of_int (int (length xs)))\<rfloor>" and "0 \<le> l_split l"
proof -
  have "0 \<le> fmul (fsub 1 f) (float_of_int (int (length xs)))"
    using assms(1) by (intro fmul_nonneg fsub_one_nonneg float_of_int_nonneg) auto
  then show "l_split l = \<lfloor>fmul (fsub 1 f) (float_of_int (int (length xs)))\<rfloor>" and "0 \<le> l_split l"
    using train_batch_Inr(2)[OF assms(3)] assms(2) by (simp_all add: py_int_def)
qed

lemma init_demo:
  "0 < f \<Longrightarrow> f \<le> 1 \<Longrightarrow>
   init 0 trs tes demo_attack demo_objective f (Inr []) = Inr (demo_trainer f trs tes)"
  by (simp add: init_def demo_trainer_def demo_attack_def demo_objective_def)

lemmas demo_eval = train_batch_def demo_env_def demo_trainer_def demo_attack_def
  py_int_def slice_to_def slice_from_def py_index_def broadcast2_def Let_def
  max_softmax_def torch_max_demo_softmax torch_max_Cons attack_success_def clamp_max_def demo_loss_def

lemma demo_batch_half:
  "\<exists>l. train_batch demo_env (demo_trainer (1/2) [] []) no_accumulators ([1, 2, 3, 4], [0, 0, 1, 1]) = Inr l"
proof -
  have f: "fsub 1 (1/2) = 1/2" "float_of_int 4 = 4" "fmul (1/2) 4 = 2" "float_of_int 2 = 2"
    "fdiv 2 4 = 1/2" by code_simp+
  show ?thesis by (simp add: demo_eval f)
qed


lemma train_batch_whole_batch:
  assumes "train_batch env self acc (xs, ts) = Inr l" and "l_split l = 0"
  shows "l_clean_inputs l = []" and "l_inputs l = l_adversarial_inputs l"
    and "l_loss l = l_adversarial_loss l" and "l_clean_loss l = 0"
    and "\<not> length (l_adversarial_inputs l) < length (l_inputs l)"
proof -
  show c: "l_clean_inputs l = []"
    using train_batch_Inr(4)[OF assms(1)] assms(2) by (simp add: slice_to_zero)
  show i: "l_inputs l = l_adversarial_inputs l"
    using train_batch_Inr(9)[OF assms(1)] c by simp
  then show n: "\<not> length (l_adversarial_inputs l) < length (l_inputs l)" by simp
  show "l_loss l = l_adversarial_loss l" using train_batch_Inr(14)[OF assms(1)] n by simp
  show "l_clean_loss l = 0" using train_batch_Inr(13)[OF assms(1)] n by simp
qed



lemma train_summary_shape:
  assumes "train_summary epoch l = Inr evs"
  shows "\<exists>a b c s lo er co.
           evs = (if length (l_adversarial_inputs l) < length (l_inputs l)
                  then [AddScalar ''train/loss'' a epoch, AddScalar ''train/error'' b epoch,
                        AddScalar ''train/confidence'' c epoch]
                  else []) @
                 [AddScalar ''train/adversarial_success'' s epoch,
                  AddScalar ''train/adversarial_loss'' lo epoch,
                  AddScalar ''train/adversarial_error'' er epoch,
                  AddScalar ''train/adversarial_confidence'' co epoch] @
                 (if length (l_adversarial_inputs l) < length (l_inputs l)
                  then [AddImages ''train/images'' (slice_to (min 8 (l_split l)) (l_inputs l)) epoch]
                  else []) @
                 [AddImages ''train/adversarial_images''
                    (slice (l_split l) (l_split l + 8) (l_inputs l)) epoch]"
  using assms unfolding train_summary_def Let_def
  by (auto simp: ebind_eq_Inr split: if_splits)

lemma train_loop_past:
  "int batches - 1 < int b \<Longrightarrow> train_loop env epoch batches b acc self bs = Inr self' \<Longrightarrow>
   writer self' = writer self \<and> fraction self' = fraction self"
proof (induction bs arbitrary: b acc self)
  case Nil
  then show ?case by simp
next
  case (Cons batch rest)
  from Cons.prems(2) obtain l where
    "train_batch env self acc batch = Inr l" and
    r: "train_loop env epoch batches (Suc b) (l_accumulators l)
          (self\<lparr>model := l_model l\<rparr>) rest = Inr self'"
    using Cons.prems(1) by (auto simp: ebind_eq_Inr)
  have "int batches - 1 < int (Suc b)" using Cons.prems(1) by simp
  from Cons.IH[OF this r] show ?case by simp
qed

lemma train_loop_writer:
  "train_loop env epoch batches b acc self bs = Inr self' \<Longrightarrow>
   fraction self' = fraction self \<and>
   (writer self' = writer self \<or>
    (\<exists>self0 acc0 batch l evs.
       fraction self0 = fraction self \<and> train_batch env self0 acc0 batch = Inr l \<and>
       train_summary epoch l = Inr evs \<and> writer self' = writer self @ evs))"
proof (induction bs arbitrary: b acc self)
  case Nil
  then show ?case by simp
next
  case (Cons batch rest)
  from Cons.prems obtain l evs where
    l: "train_batch env self acc batch = Inr l" and
    e: "(if int b = int batches - 1 then train_summary epoch l else Inr []) = Inr evs" and
    r: "train_loop env epoch batches (Suc b) (l_accumulators l)
          (self\<lparr>model := l_model l, writer := writer self @ evs\<rparr>) rest = Inr self'"
    by (auto simp: ebind_eq_Inr)
  show ?case
  proof (cases "int b = int batches - 1")
    case True
    then have "int batches - 1 < int (Suc b)" by simp
    from train_loop_past[OF this r] have "writer self' = writer self @ evs"
      and "fraction self' = fraction self" by simp_all
    moreover have "train_summary epoch l = Inr evs" using e True by simp
    ultimately show ?thesis using l by blast
  next
    case False
    then have "evs = []" using e by simp
    with Cons.IH[OF r] show ?thesis by simp
  qed
qed

lemma train_writer:
  assumes "train env self epoch = Inr self'"
  shows "fraction self' = fraction self"
    and "writer self' = writer self \<or>
         (\<exists>self0 acc0 batch l evs.
            fraction self0 = fraction self \<and> train_batch env self0 acc0 batch = Inr l \<and>
            train_summary epoch l = Inr evs \<and> writer self' = writer self @ evs)"
  using train_loop_writer[OF assms[unfolded train_def]] by simp_all




lemma map_err_Inr:
  "map_err f xs = Inr ys \<Longrightarrow>
   length ys = length xs \<and> (\<forall>i<length xs. f (xs ! i) = Inr (ys ! i))"
proof (induction xs arbitrary: ys)
  case Nil
  then show ?case by simp
next
  case (Cons x xs)
  from Cons.prems obtain y ys' where y: "f x = Inr y" and r: "map_err f xs = Inr ys'"
    and e: "ys = y # ys'" by (auto split: sum.splits)
  from Cons.IH[OF r] y e show ?case by (auto simp: nth_Cons split: nat.splits)
qed

lemma max_from_spec:
  assumes "max_from best bi i vs = (m, k)" and "row = pre @ vs" and "length pre = i"
    and "bi < i" and "row ! bi = best" and "\<forall>p\<in>set pre. p \<le> best"
  shows "k < length row \<and> row ! k = m \<and> (\<forall>p\<in>set row. p \<le> m)"
  using assms
proof (induction vs arbitrary: best bi i pre)
  case Nil
  then show ?case by auto
next
  case (Cons v vs)
  have row: "row = (pre @ [v]) @ vs" using Cons.prems(2) by simp
  have len: "length (pre @ [v]) = Suc i" using Cons.prems(3) by simp
  show ?case
  proof (cases "best < v")
    case True
    then have m: "max_from v i (Suc i) vs = (m, k)" using Cons.prems(1) by simp
    have at: "row ! i = v" using Cons.prems(2,3) by (simp add: nth_append)
    have le: "\<forall>p\<in>set (pre @ [v]). p \<le> v" using Cons.prems(6) True by auto
    show ?thesis by (rule Cons.IH[OF m row len _ at le]) simp
  next
    case False
    then have m: "max_from best bi (Suc i) vs = (m, k)" using Cons.prems(1) by simp
    have le: "\<forall>p\<in>set (pre @ [v]). p \<le> best" using Cons.prems(6) False by auto
    show ?thesis by (rule Cons.IH[OF m row len _ Cons.prems(5) le]) (use Cons.prems(4) in simp)
  qed
qed

lemma torch_max_spec:
  assumes "torch_max row = Inr r"
  shows "snd r < length row \<and> row ! snd r = fst r \<and> (\<forall>p\<in>set row. p \<le> fst r)"
proof -
  from assms obtain v vs where row: "row = v # vs" and m: "max_from v 0 1 vs = r"
    by (auto simp: torch_max_def split: list.splits)
  have m': "max_from v 0 1 vs = (fst r, snd r)" using m by simp
  show ?thesis by (rule max_from_spec[OF m', of row "[v]"]) (simp_all add: row)
qed

lemma clamp_abs_indicator:
  "clamp_max 1 \<bar>v\<bar> \<in> {0, 1}" "clamp_max 1 \<bar>v\<bar> = 1 \<longleftrightarrow> v \<noteq> 0"
  by (auto simp: clamp_max_def min_def)

lemma attack_success_values:
  assumes "attack_success targets mx = Inr succ"
  shows "set succ \<subseteq> {0, 1}"
proof -
  from assms obtain d where "succ = map (\<lambda>v. clamp_max 1 \<bar>v\<bar>) d"
    by (auto simp: attack_success_def ebind_eq_Inr)
  then show ?thesis using clamp_abs_indicator(1) by auto
qed

lemma attack_success_pointwise:
  assumes "attack_success targets mx = Inr succ" and "length targets = length mx"
  shows "length succ = length mx"
    and "\<forall>i<length mx. succ ! i = clamp_max 1 \<bar>targets ! i - int (snd (mx ! i))\<bar>"
  using assms by (auto simp: attack_success_def ebind_eq_Inr broadcast2_def)

lemma concatenate_values: "acc_values (concatenate a xs) = acc_values a @ xs"
  by (simp add: acc_values_def concatenate_def split: option.splits)

lemma test_batch_Inr:
  assumes "test_batch env self acc (xs, ts) = Inr acc'"
  shows "\<exists>inputs' mx succ.
           broadcast2 (+) xs (fst (attack_run (attack self) (model self) xs ts)) = Inr inputs' \<and>
           max_softmax (softmax env) (model_forward env (model self) inputs') = Inr mx \<and>
           attack_success ts mx = Inr succ \<and>
           t_successes acc' = concatenate (t_successes acc) succ"
  using assms unfolding test_batch_def Let_def
  by (auto simp: ebind_eq_Inr split: option.splits)

lemma train_batch_successes:
  assumes "train_batch env self acc (xs, ts) = Inr l"
  shows "\<exists>mx succ. max_softmax (softmax env) (l_adversarial_logits l) = Inr mx \<and>
           attack_success (l_adversarial_targets l) mx = Inr succ \<and>
           acc_values (successes (l_accumulators l)) = acc_values (successes acc) @ succ"
  using train_batch_Inr(15)[OF assms] by (auto simp: concatenate_values)

lemma test_batch_successes:
  assumes "test_batch env self acc (xs, ts) = Inr acc'"
  shows "\<exists>inputs' mx succ.
           broadcast2 (+) xs (fst (attack_run (attack self) (model self) xs ts)) = Inr inputs' \<and>
           max_softmax (softmax env) (model_forward env (model self) inputs') = Inr mx \<and>
           attack_success ts mx = Inr succ \<and>
           acc_values (t_successes acc') = acc_values (t_successes acc) @ succ"
  using test_batch_Inr[OF assms] by (auto simp: concatenate_values)

lemma success_indicators:
  assumes "max_softmax sm logits = Inr mx" and "attack_success targets mx = Inr succ"
    and "length targets = length logits"
  shows "length succ = length logits \<and>
         (\<forall>i<length logits.
            torch_max (sm (logits ! i)) = Inr (mx ! i) \<and>
            snd (mx ! i) < length (sm (logits ! i)) \<and>
            (\<forall>p\<in>set (sm (logits ! i)). p \<le> sm (logits ! i) ! snd (mx ! i)) \<and>
            succ ! i \<in> {0, 1} \<and>
            (succ ! i = 1 \<longleftrightarrow> int (snd (mx ! i)) \<noteq> targets ! i))"
proof -
  from assms(1) have me: "length mx = length logits"
    and mi: "\<forall>i<length logits. torch_max (sm (logits ! i)) = Inr (mx ! i)"
    using map_err_Inr[of "\<lambda>row. torch_max (sm row)" logits mx] by (simp_all add: max_softmax_def)
  from assms(3) me have lt: "length targets = length mx" by simp
  have len: "length succ = length logits"
    using attack_success_pointwise(1)[OF assms(2) lt] me by simp
  have "torch_max (sm (logits ! i)) = Inr (mx ! i) \<and>
        snd (mx ! i) < length (sm (logits ! i)) \<and>
        (\<forall>p\<in>set (sm (logits ! i)). p \<le> sm (logits ! i) ! snd (mx ! i)) \<and>
        succ ! i \<in> {0, 1} \<and>
        (succ ! i = 1 \<longleftrightarrow> int (snd (mx ! i)) \<noteq> targets ! i)"
    if i: "i < length logits" for i
  proof -
    have t: "torch_max (sm (logits ! i)) = Inr (mx ! i)" using mi i by simp
    have v: "succ ! i = clamp_max 1 \<bar>targets ! i - int (snd (mx ! i))\<bar>"
      using attack_success_pointwise(2)[OF assms(2) lt] i me by simp
    show ?thesis
      using torch_max_spec[OF t] t clamp_abs_indicator[of "targets ! i - int (snd (mx ! i))"]
      unfolding v by auto
  qed
  with len show ?thesis by blast
qed





lemma test_summary_shape:
  assumes "test_summary epoch acc = Inr evs"
  shows "\<exists>lo er co su no ob.
           evs = [AddScalar ''test/adversarial_loss'' lo (epoch + 1),
                  AddScalar ''test/adversarial_error'' er (epoch + 1),
                  AddScalar ''test/adversarial_confidence'' co (epoch + 1),
                  AddScalar ''test/adversarial_success'' su (epoch + 1),
                  AddScalar ''test/adversarial_norm'' no (epoch + 1),
                  AddScalar ''test/adversarial_objective'' ob (epoch + 1)]"
  using assms unfolding test_summary_def Let_def
  by (auto simp: ebind_eq_Inr)

lemma test_writer:
  assumes "test env self epoch = Inr self'"
  shows "\<exists>b acc evs.
           test_loop env (self\<lparr>model := model_eval env (model self),
                               writer := writer self @ base_test env (model self) epoch (testset self)\<rparr>)
             0 no_test_accumulators (testset self) = Inr (b, acc) \<and>
           test_summary epoch acc = Inr evs \<and>
           writer self' = writer self @ base_test env (model self) epoch (testset self) @ evs"
  using assms unfolding test_def Let_def
  by (auto simp: ebind_eq_Inr)


section \<open>Runs on the example collaborators\<close>

lemma demo_floats_half_two:
  "fsub 1 (1/2) = 1/2" "float_of_int 2 = 2" "fmul (1/2) 2 = 1" "float_of_int 1 = 1"
  "fdiv 1 2 = 1/2"
  by code_simp+

lemmas demo_epoch_eval = train_def demo_eval demo_floats_half_two train_summary_def
  numpy_mean_def mean_of_ints_def concatenate_def no_accumulators_def demo_loss_none_def
  slice_def

lemma demo_train_half:
  "\<exists>s. train demo_env (demo_trainer (1/2) [([1, 2], [0, 1])] [([3], [0])]) 3 = Inr s"
  by (simp add: demo_epoch_eval)

lemmas demo_test_pass_eval = test_def test_batch_def test_summary_def demo_env_def
  demo_trainer_def demo_attack_def broadcast2_def Let_def max_softmax_def torch_max_demo_softmax
  torch_max_Cons attack_success_def clamp_max_def numpy_mean_def mean_of_ints_def
  concatenate_def no_test_accumulators_def demo_loss_none_def

lemma demo_test_half:
  "\<exists>s. test demo_env (demo_trainer (1/2) [([1, 2], [0, 1])] [([3], [0])]) 3 = Inr s"
  by (simp add: demo_test_pass_eval)



section \<open>The backward loss\<close>

text \<open>
  When both partitions exist the loss of line 128 is
  \<open>(1 - fraction) * clean_loss + fraction * adversarial_loss\<close> with
  \<open>fraction = split / N\<close>, the realized share of the clean examples.
\<close>

lemma backward_loss_code_weights:
  assumes "train_batch env self acc (xs, ts) = Inr l"
    and "length (l_adversarial_inputs l) < length (l_inputs l)"
  shows "l_loss l = fsub 1 (l_fraction l) * l_clean_loss l + l_fraction l * l_adversarial_loss l"
    and "l_fraction l = fdiv (float_of_int (l_split l)) (float_of_int (int (length xs)))"
  using train_batch_Inr(3,14)[OF assms(1)] assms(2) by simp_all

lemma demo_floats_three_quarters:
  "fsub 1 (3/4) = 1/4" "float_of_int 4 = 4" "fmul (1/4) 4 = 1" "float_of_int 1 = 1"
  "fdiv 1 4 = 1/4" "fsub 1 (1/4) = 3/4"
  by code_simp+

text \<open>
  Claim C1 says that the backward loss is
  \<open>(1 - f_adv) * clean_loss + f_adv * adversarial_loss\<close> with \<open>f_adv = (N - split) / N\<close>.
  The code weights the other way round: the clean loss gets the adversarial share and
  the adversarial loss the clean share. With \<open>fraction = 0.75\<close> and a batch of four
  examples the split index is 1; on the example collaborators the clean loss is 1, the
  adversarial loss is 4, and the backward loss is \<open>3/4 * 1 + 1/4 * 4 = 7/4\<close>, where the
  claim's formula gives \<open>1/4 * 1 + 3/4 * 4 = 13/4\<close>.
\<close>

theorem backward_loss_at_failing_input:
  "map_sum id (\<lambda>l. (l_split l, l_fraction l, l_clean_loss l, l_adversarial_loss l, l_loss l))
     (train_batch demo_env (demo_trainer (3/4) [] []) no_accumulators ([1, 2, 3, 4], [0, 0, 1, 1]))
   = Inr (1, 1/4, 1, 4, 7/4)
   \<and> (1 - (4 - 1) / 4) * 1 + (4 - 1) / 4 * 4 = (13/4 :: real)"
  by (simp add: demo_eval demo_floats_three_quarters)


section \<open>The split of a batch\<close>

lemma point_two_floats:
  "fmul (fsub 1 point_two) 5 = 4" "float_of_int 5 = 5" "round64 point_two = point_two"
  "\<lfloor>(1 - point_two) * 5\<rfloor> = 3"
  by code_simp+

lemma point_two_range: "0 < point_two" "point_two \<le> 1"
  by (simp_all add: point_two_def)

text \<open>
  Claim C2 says that the split index of the training step is the floor of
  \<open>(1 - f) * N\<close>, the clean partition being the prefix \<open>[0, split)\<close> and the adversarial
  partition the suffix \<open>[split, N)\<close>. The program computes the difference and the
  product in binary64, and the rounding can carry the product over an integer. For the
  float nearest to 0.2 (\<open>point_two\<close>, which the constructor accepts) and a batch of five
  examples, \<open>1 - f\<close> is rounded up to the float nearest to 0.8, the product is \<open>4.0\<close> and
  the split index is 4, where the floor of \<open>(1 - f) * 5\<close> is 3.
\<close>

theorem split_index_exact_floor_counterexample:
  "map_sum id l_split
     (train_batch demo_env (demo_trainer point_two [] []) no_accumulators
        ([1, 2, 3, 4, 5], [0, 0, 0, 1, 1])) = Inr 4
   \<and> \<lfloor>(1 - point_two) * real (length [1, 2, 3, 4, 5 :: real])\<rfloor> = 3
   \<and> init 0 [] [] demo_attack demo_objective point_two (Inr [])
       = Inr (demo_trainer point_two [] [])
   \<and> round64 point_two = point_two"
proof (intro conjI)
  show "map_sum id l_split
     (train_batch demo_env (demo_trainer point_two [] []) no_accumulators
        ([1, 2, 3, 4, 5], [0, 0, 0, 1, 1])) = Inr 4"
    by (simp add: demo_eval point_two_floats)
  show "\<lfloor>(1 - point_two) * real (length [1, 2, 3, 4, 5 :: real])\<rfloor> = 3"
    using point_two_floats(4) by simp
  show "init 0 [] [] demo_attack demo_objective point_two (Inr [])
       = Inr (demo_trainer point_two [] [])"
    by (rule init_demo[OF point_two_range])
  show "round64 point_two = point_two" by (rule point_two_floats(3))
qed

text \<open>
  Claim C2, amended. For every batch of size \<open>N\<close> and every constructor fraction \<open>f\<close> in
  \<open>(0, 1]\<close>, the split index of the training step is the floor of the product
  \<open>(1 - f) * N\<close> as the program computes it, the difference and the product each rounded
  to the nearest binary64 number (\<open>int\<close> truncates, and truncation is the floor because
  the product is not negative). It is the floor of the exact \<open>(1 - f) * N\<close> whenever
  neither operation rounds, and for \<open>N < 2 ^ 51\<close> it differs from that floor by at most
  one. The clean inputs and targets are the prefix \<open>[0, split)\<close> of the batch, the
  adversarial targets the suffix \<open>[split, N)\<close>, and the adversarial inputs are the suffix
  of the inputs plus the perturbation of the attack.
\<close>

theorem split_index_is_floor:
  assumes "0 < f" and "f \<le> 1" and "fraction self = fsub 1 f"
    and "train_batch env self acc (xs, ts) = Inr l"
  shows "l_split l = \<lfloor>fmul (fsub 1 f) (float_of_int (int (length xs)))\<rfloor> \<and>
         (fsub 1 f = 1 - f \<and> float_of_int (int (length xs)) = real (length xs) \<and>
          fmul (1 - f) (real (length xs)) = (1 - f) * real (length xs) \<longrightarrow>
            l_split l = \<lfloor>(1 - f) * real (length xs)\<rfloor>) \<and>
         (length xs < 2 ^ 51 \<longrightarrow> \<bar>l_split l - \<lfloor>(1 - f) * real (length xs)\<rfloor>\<bar> \<le> 1) \<and>
         l_clean_inputs l = take (nat (l_split l)) xs \<and>
         l_clean_targets l = take (nat (l_split l)) ts \<and>
         l_adversarial_targets l = drop (nat (l_split l)) ts \<and>
         broadcast2 (+) (drop (nat (l_split l)) xs) (l_adversarial_perturbations l)
           = Inr (l_adversarial_inputs l)"
proof -
  note s = split_nonneg[OF assms(2,3,4)]
  have exact: "l_split l = \<lfloor>(1 - f) * real (length xs)\<rfloor>"
    if "fsub 1 f = 1 - f \<and> float_of_int (int (length xs)) = real (length xs) \<and>
        fmul (1 - f) (real (length xs)) = (1 - f) * real (length xs)"
    using s(1) that by simp
  have close: "\<bar>l_split l - \<lfloor>(1 - f) * real (length xs)\<rfloor>\<bar> \<le> 1" if n: "length xs < 2 ^ 51"
  proof -
    have "length xs < 2 ^ 53" by (rule less_trans[OF n]) simp
    then have fn: "float_of_int (int (length xs)) = real (length xs)" by (rule float_of_int_nat)
    have "real (length xs) < 2 ^ 51" using n by (simp only: of_nat_less_numeral_power_cancel_iff)
    then have "\<bar>round64 (round64 (1 - f) * real (length xs)) - (1 - f) * real (length xs)\<bar> < 1"
      using assms(1,2) by (intro rounded_product_close) auto
    then have "\<bar>\<lfloor>round64 (round64 (1 - f) * real (length xs))\<rfloor> - \<lfloor>(1 - f) * real (length xs)\<rfloor>\<bar> \<le> 1"
      by (rule floor_close)
    then show ?thesis using s(1) by (simp add: fn fsub_def fmul_def)
  qed
  show ?thesis
    using s exact close train_batch_Inr(4,5,6,8)[OF assms(4)]
    by (simp add: slice_to_nonneg slice_from_nonneg)
qed

theorem split_index_is_floor_witness:
  "\<exists>l. train_batch demo_env (demo_trainer (1/2) [] []) no_accumulators ([1, 2, 3, 4], [0, 0, 1, 1]) = Inr l
     \<and> l_split l = 2 \<and> l_split l = \<lfloor>(1 - 1/2) * real (length [1, 2, 3, 4 :: real])\<rfloor>
     \<and> l_clean_inputs l = [1, 2] \<and> l_clean_targets l = [0, 0]
     \<and> l_adversarial_targets l = [1, 1] \<and> l_adversarial_inputs l = [4, 5]"
proof -
  obtain l where l: "train_batch demo_env (demo_trainer (1/2) [] []) no_accumulators ([1, 2, 3, 4], [0, 0, 1, 1]) = Inr l"
    using demo_batch_half by blast
  have f: "fsub 1 (1/2) = 1/2" "float_of_int 4 = 4" "fmul (1/2) 4 = 2" by code_simp+
  have fr: "fraction (demo_trainer (1/2) [] []) = fsub 1 (1/2)" by (simp add: demo_trainer_def)
  have p: "l_adversarial_perturbations l = [1, 1]"
    using train_batch_Inr(7)[OF l] train_batch_Inr(2)[OF l]
    by (simp add: demo_eval f)
  note th = split_index_is_floor[of "1/2", OF _ _ fr l]
  have s: "l_split l = 2" using th by (simp add: f)
  have e: "l_split l = \<lfloor>(1 - 1/2) * real (length [1, 2, 3, 4 :: real])\<rfloor>"
    using th by (simp add: f)
  have "l_clean_inputs l = [1, 2] \<and> l_clean_targets l = [0, 0]
     \<and> l_adversarial_targets l = [1, 1] \<and> l_adversarial_inputs l = [4, 5]"
    using th s p by (auto simp: f broadcast2_def)
  with l s e show ?thesis by blast
qed


section \<open>A fraction of one\<close>







section \<open>The cap on the test batches\<close>






section \<open>Recombination\<close>

text \<open>
  Claim C5. Whenever the perturbation of the attack has as many examples as the
  adversarial sub-batch, the inputs of the forward pass are the clean prefix followed by
  the perturbed adversarial suffix and there are exactly \<open>N\<close> of them, and the clean
  targets \<open>[0, split)\<close> followed by the adversarial targets \<open>[split, N)\<close> are the targets
  of the batch, in their order.
\<close>

theorem recombination_preserves_batch:
  assumes "0 < f" and "f \<le> 1" and "fraction self = fsub 1 f"
    and "train_batch env self acc (xs, ts) = Inr l"
    and "length (l_adversarial_perturbations l) = length xs - nat (l_split l)"
  shows "length (l_inputs l) = length xs \<and>
         l_inputs l = take (nat (l_split l)) xs @
                      map2 (+) (drop (nat (l_split l)) xs) (l_adversarial_perturbations l) \<and>
         l_clean_targets l = take (nat (l_split l)) ts \<and>
         l_adversarial_targets l = drop (nat (l_split l)) ts \<and>
         l_clean_targets l @ l_adversarial_targets l = ts"
proof -
  define k where "k = nat (l_split l)"
  have s0: "0 \<le> l_split l" using split_nonneg(2)[OF assms(2,3,4)] .
  have ci: "l_clean_inputs l = take k xs" and ct: "l_clean_targets l = take k ts"
    and at: "l_adversarial_targets l = drop k ts"
    using train_batch_Inr(4,5,6)[OF assms(4)] s0 by (simp_all add: slice_to_nonneg slice_from_nonneg k_def)
  have "broadcast2 (+) (drop k xs) (l_adversarial_perturbations l) = Inr (l_adversarial_inputs l)"
    using train_batch_Inr(8)[OF assms(4)] s0 by (simp add: slice_from_nonneg k_def)
  moreover have "length (l_adversarial_perturbations l) = length (drop k xs)"
    using assms(5) by (simp add: k_def)
  ultimately have ai: "l_adversarial_inputs l = map2 (+) (drop k xs) (l_adversarial_perturbations l)"
    and la: "length (l_adversarial_inputs l) = length xs - k"
    using broadcast2_length by fastforce+
  have i: "l_inputs l = take k xs @ l_adversarial_inputs l"
  proof (cases "length (l_adversarial_inputs l) < length xs")
    case True
    then show ?thesis using train_batch_Inr(9)[OF assms(4)] ci by simp
  next
    case False
    with la have "\<not> length xs - k < length xs" by simp
    then have "k = 0 \<or> xs = []" by (cases xs) auto
    then show ?thesis using train_batch_Inr(9)[OF assms(4)] False by auto
  qed
  have "length (l_inputs l) = length xs" using i la by auto
  with i ai ct at show ?thesis unfolding k_def[symmetric] by simp
qed

theorem recombination_preserves_batch_witness:
  "\<exists>l. train_batch demo_env (demo_trainer (1/2) [] []) no_accumulators ([1, 2, 3, 4], [0, 0, 1, 1]) = Inr l
     \<and> l_inputs l = [1, 2, 4, 5] \<and> l_clean_targets l = [0, 0] \<and> l_adversarial_targets l = [1, 1]
     \<and> l_clean_targets l @ l_adversarial_targets l = [0, 0, 1, 1]"
proof -
  obtain l where l: "train_batch demo_env (demo_trainer (1/2) [] []) no_accumulators ([1, 2, 3, 4], [0, 0, 1, 1]) = Inr l"
    using demo_batch_half by blast
  have f: "fsub 1 (1/2) = 1/2" "float_of_int 4 = 4" "fmul (1/2) 4 = 2" by code_simp+
  have fr: "fraction (demo_trainer (1/2) [] []) = fsub 1 (1/2)" by (simp add: demo_trainer_def)
  have s: "l_split l = 2" using train_batch_Inr(2)[OF l] by (simp add: fr f py_int_def)
  have p: "l_adversarial_perturbations l = [1, 1]"
    using train_batch_Inr(7)[OF l] s by (simp add: demo_eval)
  have n: "length (l_adversarial_perturbations l) = length [1, 2, 3, 4 :: real] - nat (l_split l)"
    using s p by simp
  from recombination_preserves_batch[of "1/2", OF _ _ fr l n] s p
  have "l_inputs l = [1, 2, 4, 5] \<and> l_clean_targets l = [0, 0] \<and> l_adversarial_targets l = [1, 1]
     \<and> l_clean_targets l @ l_adversarial_targets l = [0, 0, 1, 1]"
    by auto
  with l show ?thesis by blast
qed


section \<open>The attack-success indicator\<close>

lemma demo_batch_half_successes:
  "map_sum id (\<lambda>l. (acc_values (successes (l_accumulators l)), l_adversarial_targets l,
                    l_adversarial_logits l))
     (train_batch demo_env (demo_trainer (1/2) [] []) no_accumulators ([1, 2, 3, 4], [0, 0, 1, 1]))
   = Inr ([1, 1], [1, 1], [[4, 0], [5, 0]])"
proof -
  have f: "fsub 1 (1/2) = 1/2" "float_of_int 4 = 4" "fmul (1/2) 4 = 2" "float_of_int 2 = 2"
    "fdiv 2 4 = 1/2" by code_simp+
  show ?thesis
    by (simp add: demo_eval f acc_values_def concatenate_def no_accumulators_def)
qed

lemma demo_test_batch:
  "\<exists>a. test_batch demo_env (demo_trainer (1/2) [] []) no_test_accumulators ([1, 2], [0, 1]) = Inr a"
  by (simp add: test_batch_def demo_env_def demo_trainer_def demo_attack_def broadcast2_def Let_def
      max_softmax_def torch_max_demo_softmax torch_max_Cons attack_success_def clamp_max_def)

lemma demo_test_batch_successes:
  "map_sum id (\<lambda>a. acc_values (t_successes a))
     (test_batch demo_env (demo_trainer (1/2) [] []) no_test_accumulators ([1, 2], [0, 1]))
   = Inr [0, 1]"
  by (simp add: test_batch_def demo_env_def demo_trainer_def demo_attack_def broadcast2_def Let_def
      max_softmax_def torch_max_demo_softmax torch_max_Cons attack_success_def clamp_max_def
      acc_values_def concatenate_def no_test_accumulators_def)

text \<open>
  Claim C6. In the training step and in the test pass, what a batch adds to the
  accumulator of the successes is the tensor of lines 138 to 141 and of line 233:
  \<open>min (abs (target - predicted)) 1\<close> for every adversarial example, where the predicted
  class is the index that \<open>torch.max\<close> returns for the softmax of the logits of the
  example, a valid index of that row at which the softmax is greatest. Every such value
  is 0 or 1, for any number of classes, and, the targets and the logits being of the
  same length, the value of an example is 1 exactly when its predicted class differs
  from its target.
\<close>

theorem attack_success_indicator:
  "(train_batch env self acc (xs, ts) = Inr l \<longrightarrow>
      (\<exists>mx succ.
         max_softmax (softmax env) (l_adversarial_logits l) = Inr mx \<and>
         attack_success (l_adversarial_targets l) mx = Inr succ \<and>
         acc_values (successes (l_accumulators l)) = acc_values (successes acc) @ succ \<and>
         set succ \<subseteq> {0, 1} \<and>
         (length (l_adversarial_targets l) = length (l_adversarial_logits l) \<longrightarrow>
            length succ = length (l_adversarial_logits l) \<and>
            (\<forall>i<length (l_adversarial_logits l).
               torch_max (softmax env (l_adversarial_logits l ! i)) = Inr (mx ! i) \<and>
               snd (mx ! i) < length (softmax env (l_adversarial_logits l ! i)) \<and>
               (\<forall>p\<in>set (softmax env (l_adversarial_logits l ! i)).
                  p \<le> softmax env (l_adversarial_logits l ! i) ! snd (mx ! i)) \<and>
               succ ! i \<in> {0, 1} \<and>
               (succ ! i = 1 \<longleftrightarrow> int (snd (mx ! i)) \<noteq> l_adversarial_targets l ! i))))) \<and>
   (test_batch env' self' tacc (xs', ts') = Inr tacc' \<longrightarrow>
      (\<exists>inputs' logits mx succ.
         broadcast2 (+) xs' (fst (attack_run (attack self') (model self') xs' ts')) = Inr inputs' \<and>
         logits = model_forward env' (model self') inputs' \<and>
         max_softmax (softmax env') logits = Inr mx \<and>
         attack_success ts' mx = Inr succ \<and>
         acc_values (t_successes tacc') = acc_values (t_successes tacc) @ succ \<and>
         set succ \<subseteq> {0, 1} \<and>
         (length ts' = length logits \<longrightarrow>
            length succ = length logits \<and>
            (\<forall>i<length logits.
               torch_max (softmax env' (logits ! i)) = Inr (mx ! i) \<and>
               snd (mx ! i) < length (softmax env' (logits ! i)) \<and>
               (\<forall>p\<in>set (softmax env' (logits ! i)).
                  p \<le> softmax env' (logits ! i) ! snd (mx ! i)) \<and>
               succ ! i \<in> {0, 1} \<and>
               (succ ! i = 1 \<longleftrightarrow> int (snd (mx ! i)) \<noteq> ts' ! i)))))"
proof (intro conjI impI)
  assume a: "train_batch env self acc (xs, ts) = Inr l"
  from train_batch_successes[OF a] obtain mx succ where
    m: "max_softmax (softmax env) (l_adversarial_logits l) = Inr mx" and
    s: "attack_success (l_adversarial_targets l) mx = Inr succ" and
    c: "acc_values (successes (l_accumulators l)) = acc_values (successes acc) @ succ"
    by blast
  have pw: "length (l_adversarial_targets l) = length (l_adversarial_logits l) \<longrightarrow>
            length succ = length (l_adversarial_logits l) \<and>
            (\<forall>i<length (l_adversarial_logits l).
               torch_max (softmax env (l_adversarial_logits l ! i)) = Inr (mx ! i) \<and>
               snd (mx ! i) < length (softmax env (l_adversarial_logits l ! i)) \<and>
               (\<forall>p\<in>set (softmax env (l_adversarial_logits l ! i)).
                  p \<le> softmax env (l_adversarial_logits l ! i) ! snd (mx ! i)) \<and>
               succ ! i \<in> {0, 1} \<and>
               (succ ! i = 1 \<longleftrightarrow> int (snd (mx ! i)) \<noteq> l_adversarial_targets l ! i))"
    by (rule impI) (rule success_indicators[OF m s])
  show "\<exists>mx succ.
         max_softmax (softmax env) (l_adversarial_logits l) = Inr mx \<and>
         attack_success (l_adversarial_targets l) mx = Inr succ \<and>
         acc_values (successes (l_accumulators l)) = acc_values (successes acc) @ succ \<and>
         set succ \<subseteq> {0, 1} \<and>
         (length (l_adversarial_targets l) = length (l_adversarial_logits l) \<longrightarrow>
            length succ = length (l_adversarial_logits l) \<and>
            (\<forall>i<length (l_adversarial_logits l).
               torch_max (softmax env (l_adversarial_logits l ! i)) = Inr (mx ! i) \<and>
               snd (mx ! i) < length (softmax env (l_adversarial_logits l ! i)) \<and>
               (\<forall>p\<in>set (softmax env (l_adversarial_logits l ! i)).
                  p \<le> softmax env (l_adversarial_logits l ! i) ! snd (mx ! i)) \<and>
               succ ! i \<in> {0, 1} \<and>
               (succ ! i = 1 \<longleftrightarrow> int (snd (mx ! i)) \<noteq> l_adversarial_targets l ! i)))"
    by (intro exI[of _ mx] exI[of _ succ] conjI m s c attack_success_values[OF s] pw)
next
  assume a: "test_batch env' self' tacc (xs', ts') = Inr tacc'"
  from test_batch_successes[OF a] obtain inputs' mx succ where
    b: "broadcast2 (+) xs' (fst (attack_run (attack self') (model self') xs' ts')) = Inr inputs'" and
    m: "max_softmax (softmax env') (model_forward env' (model self') inputs') = Inr mx" and
    s: "attack_success ts' mx = Inr succ" and
    c: "acc_values (t_successes tacc') = acc_values (t_successes tacc) @ succ"
    by blast
  have pw: "length ts' = length (model_forward env' (model self') inputs') \<longrightarrow>
            length succ = length (model_forward env' (model self') inputs') \<and>
            (\<forall>i<length (model_forward env' (model self') inputs').
               torch_max (softmax env' (model_forward env' (model self') inputs' ! i)) = Inr (mx ! i) \<and>
               snd (mx ! i) < length (softmax env' (model_forward env' (model self') inputs' ! i)) \<and>
               (\<forall>p\<in>set (softmax env' (model_forward env' (model self') inputs' ! i)).
                  p \<le> softmax env' (model_forward env' (model self') inputs' ! i) ! snd (mx ! i)) \<and>
               succ ! i \<in> {0, 1} \<and>
               (succ ! i = 1 \<longleftrightarrow> int (snd (mx ! i)) \<noteq> ts' ! i))"
    by (rule impI) (rule success_indicators[OF m s])
  show "\<exists>inputs' logits mx succ.
         broadcast2 (+) xs' (fst (attack_run (attack self') (model self') xs' ts')) = Inr inputs' \<and>
         logits = model_forward env' (model self') inputs' \<and>
         max_softmax (softmax env') logits = Inr mx \<and>
         attack_success ts' mx = Inr succ \<and>
         acc_values (t_successes tacc') = acc_values (t_successes tacc) @ succ \<and>
         set succ \<subseteq> {0, 1} \<and>
         (length ts' = length logits \<longrightarrow>
            length succ = length logits \<and>
            (\<forall>i<length logits.
               torch_max (softmax env' (logits ! i)) = Inr (mx ! i) \<and>
               snd (mx ! i) < length (softmax env' (logits ! i)) \<and>
               (\<forall>p\<in>set (softmax env' (logits ! i)).
                  p \<le> softmax env' (logits ! i) ! snd (mx ! i)) \<and>
               succ ! i \<in> {0, 1} \<and>
               (succ ! i = 1 \<longleftrightarrow> int (snd (mx ! i)) \<noteq> ts' ! i)))"
    by (intro exI[of _ inputs'] exI[of _ "model_forward env' (model self') inputs'"]
        exI[of _ mx] exI[of _ succ] conjI b refl m s c attack_success_values[OF s] pw)
qed

theorem attack_success_indicator_witness:
  "\<exists>l tacc' mx mx'.
     train_batch demo_env (demo_trainer (1/2) [] []) no_accumulators ([1, 2, 3, 4], [0, 0, 1, 1]) = Inr l \<and>
     l_adversarial_logits l = [[4, 0], [5, 0]] \<and> l_adversarial_targets l = [1, 1] \<and>
     max_softmax demo_softmax (l_adversarial_logits l) = Inr mx \<and>
     acc_values (successes (l_accumulators l)) = [1, 1] \<and>
     int (snd (mx ! 0)) \<noteq> l_adversarial_targets l ! 0 \<and>
     int (snd (mx ! 1)) \<noteq> l_adversarial_targets l ! 1 \<and>
     test_batch demo_env (demo_trainer (1/2) [] []) no_test_accumulators ([1, 2], [0, 1]) = Inr tacc' \<and>
     max_softmax demo_softmax [[2, 0], [3, 0]] = Inr mx' \<and>
     acc_values (t_successes tacc') = [0, 1] \<and>
     int (snd (mx' ! 0)) = 0 \<and> int (snd (mx' ! 1)) \<noteq> 1"
proof -
  define d where "d = demo_trainer (1/2) [] []"
  obtain l where l: "train_batch demo_env d no_accumulators ([1, 2, 3, 4], [0, 0, 1, 1]) = Inr l"
    using demo_batch_half unfolding d_def by blast
  obtain a where a: "test_batch demo_env d no_test_accumulators ([1, 2], [0, 1]) = Inr a"
    using demo_test_batch unfolding d_def by blast
  note th = attack_success_indicator[of demo_env d no_accumulators "[1, 2, 3, 4]" "[0, 0, 1, 1]" l
      demo_env d no_test_accumulators "[1, 2]" "[0, 1]" a]
  have lv: "acc_values (successes (l_accumulators l)) = [1, 1]" "l_adversarial_targets l = [1, 1]"
    "l_adversarial_logits l = [[4, 0], [5, 0]]"
    using demo_batch_half_successes l unfolding d_def by simp_all
  have av: "acc_values (t_successes a) = [0, 1]"
    using demo_test_batch_successes a unfolding d_def by simp
  have e: "acc_values (successes no_accumulators) = []" "acc_values (t_successes no_test_accumulators) = []"
    by (simp_all add: acc_values_def no_accumulators_def no_test_accumulators_def)
  have sm: "softmax demo_env = demo_softmax" by (simp add: demo_env_def)
  from th l obtain mx succ where
    m: "max_softmax (softmax demo_env) (l_adversarial_logits l) = Inr mx" and
    c: "acc_values (successes (l_accumulators l)) = acc_values (successes no_accumulators) @ succ" and
    p: "length (l_adversarial_targets l) = length (l_adversarial_logits l) \<longrightarrow>
         length succ = length (l_adversarial_logits l) \<and>
         (\<forall>i<length (l_adversarial_logits l).
            torch_max (softmax demo_env (l_adversarial_logits l ! i)) = Inr (mx ! i) \<and>
            snd (mx ! i) < length (softmax demo_env (l_adversarial_logits l ! i)) \<and>
            (\<forall>p\<in>set (softmax demo_env (l_adversarial_logits l ! i)).
               p \<le> softmax demo_env (l_adversarial_logits l ! i) ! snd (mx ! i)) \<and>
            succ ! i \<in> {0, 1} \<and>
            (succ ! i = 1 \<longleftrightarrow> int (snd (mx ! i)) \<noteq> l_adversarial_targets l ! i))"
    by blast
  have succ: "succ = [1, 1]" using c lv(1) e(1) by simp
  have t0: "int (snd (mx ! 0)) \<noteq> l_adversarial_targets l ! 0"
    and t1: "int (snd (mx ! 1)) \<noteq> l_adversarial_targets l ! 1"
    using p lv(2,3) succ by auto
  have bt: "broadcast2 (+) [1, 2] (fst (attack_run (attack d) (model d) [1, 2] [0, 1])) = Inr [2, 3 :: real]"
    by (simp add: d_def demo_trainer_def demo_attack_def broadcast2_def)
  have fw: "model_forward demo_env (model d) [2, 3] = [[2, 0], [3, 0]]"
    by (simp add: demo_env_def)
  from th a obtain inputs' logits mx' succ' where
    b': "broadcast2 (+) [1, 2] (fst (attack_run (attack d) (model d) [1, 2] [0, 1])) = Inr inputs'" and
    lg: "logits = model_forward demo_env (model d) inputs'" and
    m': "max_softmax (softmax demo_env) logits = Inr mx'" and
    c': "acc_values (t_successes a) = acc_values (t_successes no_test_accumulators) @ succ'" and
    p': "length [0, 1 :: int] = length logits \<longrightarrow>
         length succ' = length logits \<and>
         (\<forall>i<length logits.
            torch_max (softmax demo_env (logits ! i)) = Inr (mx' ! i) \<and>
            snd (mx' ! i) < length (softmax demo_env (logits ! i)) \<and>
            (\<forall>p\<in>set (softmax demo_env (logits ! i)).
               p \<le> softmax demo_env (logits ! i) ! snd (mx' ! i)) \<and>
            succ' ! i \<in> {0, 1} \<and>
            (succ' ! i = 1 \<longleftrightarrow> int (snd (mx' ! i)) \<noteq> [0, 1] ! i))"
    by blast
  have i': "inputs' = [2, 3]" using b' bt by simp
  have lg': "logits = [[2, 0], [3, 0]]" using lg i' fw by simp
  have succ': "succ' = [0, 1]" using c' av e(2) by simp
  have u0: "int (snd (mx' ! 0)) = 0" and u1: "int (snd (mx' ! 1)) \<noteq> 1"
    using p' lg' succ' by auto
  show ?thesis
    apply (rule exI[of _ l], rule exI[of _ a], rule exI[of _ mx], rule exI[of _ mx'])
    using l a lv av m m' t0 t1 u0 u1 lg' unfolding d_def sm by simp
qed


section \<open>The constructor\<close>

text \<open>
  Claim C7. The constructor raises an assertion error, before the constructor of the base
  class runs and before anything is written, whenever the fraction is not in \<open>(0, 1]\<close>,
  the objective is not an instance of \<open>Objective\<close> or the attack has no \<open>norm\<close>. On
  valid arguments it runs the base constructor and, when that one returns, completes and
  stores the configuration: the attack, the objective, the clean fraction \<open>1 - f\<close> and
  the cap of 10 test batches. So, the base constructor returning, construction fails if
  and only if the contract is violated.
\<close>

theorem init_contract:
  "(\<not> (0 < f \<and> f \<le> 1 \<and> objective_is_instance obj \<and> attack_norm att \<noteq> None) \<longrightarrow>
      init mdl trs tes att obj f base = Inl AssertionError) \<and>
   (0 < f \<and> f \<le> 1 \<and> objective_is_instance obj \<and> attack_norm att \<noteq> None \<longrightarrow>
      init mdl trs tes att obj f base =
        (case base of
           Inl e \<Rightarrow> Inl e
         | Inr w \<Rightarrow>
             Inr \<lparr> model = mdl, trainset = trs, testset = tes,
                   writer = w @ [AddText ''config/attack'' (Name (attack_class_name att)),
                                 AddText ''config/objective'' (Name (objective_class_name obj)),
                                 AddText ''config/fraction'' (Str f)],
                   attack = att, objective = obj, fraction = fsub 1 f, max_batches = 10 \<rparr>)) \<and>
   (base = Inr w' \<longrightarrow>
      (isl (init mdl trs tes att obj f base) \<longleftrightarrow>
         \<not> (0 < f \<and> f \<le> 1 \<and> objective_is_instance obj \<and> attack_norm att \<noteq> None)))"
  by (auto simp: init_def split: sum.splits)

theorem init_contract_witness:
  "init (0::nat) [] [] demo_attack demo_objective (1/2) (Inr []) = Inr (demo_trainer (1/2) [] []) \<and>
   init (0::nat) [] [] demo_attack demo_objective 0 (Inr []) = Inl AssertionError \<and>
   init (0::nat) [] [] demo_attack demo_objective (3/2) (Inr []) = Inl AssertionError \<and>
   init (0::nat) [] [] demo_attack (demo_objective\<lparr>objective_is_instance := False\<rparr>) (1/2) (Inr [])
     = Inl AssertionError \<and>
   init (0::nat) [] [] (demo_attack\<lparr>attack_norm := None\<rparr>) demo_objective (1/2) (Inr [])
     = Inl AssertionError \<and>
   isl (init (0::nat) [] [] demo_attack demo_objective 0 (Inr []))"
proof -
  have ok: "objective_is_instance demo_objective" "attack_norm demo_attack \<noteq> None"
    "objective_class_name demo_objective = ''UntargetedF0Objective''"
    "attack_class_name demo_attack = ''BatchGradientDescent''"
    by (simp_all add: demo_objective_def demo_attack_def)
  have 1: "init (0::nat) [] [] demo_attack demo_objective (1/2) (Inr []) = Inr (demo_trainer (1/2) [] [])"
    using init_contract[of "1/2" demo_objective demo_attack 0 "[]" "[]" "Inr []" "[]"] ok
    by (simp add: demo_trainer_def)
  have 2: "init (0::nat) [] [] demo_attack demo_objective 0 (Inr []) = Inl AssertionError"
    using init_contract[of 0 demo_objective demo_attack 0 "[]" "[]" "Inr []" "[]"] by simp
  have 3: "init (0::nat) [] [] demo_attack demo_objective (3/2) (Inr []) = Inl AssertionError"
    using init_contract[of "3/2" demo_objective demo_attack 0 "[]" "[]" "Inr []" "[]"] by simp
  have 4: "init (0::nat) [] [] demo_attack (demo_objective\<lparr>objective_is_instance := False\<rparr>) (1/2) (Inr [])
     = Inl AssertionError"
    using init_contract[of "1/2" "demo_objective\<lparr>objective_is_instance := False\<rparr>" demo_attack
        0 "[]" "[]" "Inr []" "[]"] by simp
  have 5: "init (0::nat) [] [] (demo_attack\<lparr>attack_norm := None\<rparr>) demo_objective (1/2) (Inr [])
     = Inl AssertionError"
    using init_contract[of "1/2" demo_objective "demo_attack\<lparr>attack_norm := None\<rparr>"
        0 "[]" "[]" "Inr []" "[]"] by simp
  have 6: "isl (init (0::nat) [] [] demo_attack demo_objective 0 (Inr []))"
    using init_contract[of 0 demo_objective demo_attack 0 "[]" "[]" "Inr []" "[]"] by simp
  from 1 2 3 4 5 6 show ?thesis by blast
qed


section \<open>The order of the writes\<close>

text \<open>
  Claim C8. The three configuration texts are written by the constructor, after whatever
  the base constructor wrote and before any epoch; a training epoch and the adversarial
  test pass write no text, so the configuration is written once. What a training epoch
  writes is a run of scalars followed by a run of image grids: no scalar comes after
  an image grid. After the writes of the base class's test pass, the adversarial test
  pass writes scalars only.
\<close>

theorem writer_order:
  "(init mdl trs tes att obj f (Inr w) = Inr self \<longrightarrow>
      writer self = w @ [AddText ''config/attack'' (Name (attack_class_name att)),
                         AddText ''config/objective'' (Name (objective_class_name obj)),
                         AddText ''config/fraction'' (Str f)]) \<and>
   (train env self1 epoch = Inr self2 \<longrightarrow>
      (\<exists>evs. writer self2 = writer self1 @ evs \<and> list_all (\<lambda>e. \<not> is_text e) evs \<and>
             scalars_before_images evs)) \<and>
   (test env self3 epoch = Inr self4 \<longrightarrow>
      (\<exists>evs. writer self4 = writer self3 @ base_test env (model self3) epoch (testset self3) @ evs \<and>
             list_all is_scalar evs))"
proof (intro conjI impI)
  assume "init mdl trs tes att obj f (Inr w) = Inr self"
  then show "writer self = w @ [AddText ''config/attack'' (Name (attack_class_name att)),
                         AddText ''config/objective'' (Name (objective_class_name obj)),
                         AddText ''config/fraction'' (Str f)]"
    by (auto simp: init_def split: if_splits)
next
  assume t: "train env self1 epoch = Inr self2"
  from train_writer(2)[OF t]
  show "\<exists>evs. writer self2 = writer self1 @ evs \<and> list_all (\<lambda>e. \<not> is_text e) evs \<and>
             scalars_before_images evs"
  proof
    assume "writer self2 = writer self1"
    then show ?thesis by (intro exI[of _ "[]"]) simp
  next
    assume "\<exists>self0 acc0 batch l evs.
              fraction self0 = fraction self1 \<and> train_batch env self0 acc0 batch = Inr l \<and>
              train_summary epoch l = Inr evs \<and> writer self2 = writer self1 @ evs"
    then obtain s0 a0 b0 l evs where "train_batch env s0 a0 b0 = Inr l"
      and e: "train_summary epoch l = Inr evs"
      and w: "writer self2 = writer self1 @ evs" by blast
    from train_summary_shape[OF e]
    have "list_all (\<lambda>e. \<not> is_text e) evs \<and> scalars_before_images evs" by auto
    with w show ?thesis by (intro exI[of _ evs]) simp
  qed
next
  assume t: "test env self3 epoch = Inr self4"
  from test_writer[OF t] obtain acc evs where e: "test_summary epoch acc = Inr evs"
    and w: "writer self4 = writer self3 @ base_test env (model self3) epoch (testset self3) @ evs"
    by blast
  from test_summary_shape[OF e] have "list_all is_scalar evs" by auto
  with w show "\<exists>evs. writer self4 = writer self3 @ base_test env (model self3) epoch (testset self3) @ evs \<and>
             list_all is_scalar evs" by (intro exI[of _ evs]) simp
qed

theorem writer_order_witness:
  "\<exists>s2 s4 evs evs'.
     train demo_env (demo_trainer (1/2) [([1, 2], [0, 1])] [([3], [0])]) 3 = Inr s2 \<and>
     writer s2 = writer (demo_trainer (1/2) [([1, 2], [0, 1])] [([3], [0])]) @ evs \<and>
     list_all (\<lambda>e. \<not> is_text e) evs \<and> scalars_before_images evs \<and>
     test demo_env (demo_trainer (1/2) [([1, 2], [0, 1])] [([3], [0])]) 3 = Inr s4 \<and>
     writer s4 = writer (demo_trainer (1/2) [([1, 2], [0, 1])] [([3], [0])]) @ evs' \<and>
     list_all is_scalar evs' \<and>
     writer (demo_trainer (1/2) [([1, 2], [0, 1])] [([3], [0])])
       = [] @ [AddText ''config/attack'' (Name (attack_class_name demo_attack)),
               AddText ''config/objective'' (Name (objective_class_name demo_objective)),
               AddText ''config/fraction'' (Str (1/2))]"
proof -
  define d where "d = demo_trainer (1/2) [([1, 2], [0, 1])] [([3], [0])]"
  obtain s2 where s2: "train demo_env d 3 = Inr s2" using demo_train_half unfolding d_def by blast
  obtain s4 where s4: "test demo_env d 3 = Inr s4" using demo_test_half unfolding d_def by blast
  have i: "init 0 [([1, 2], [0, 1])] [([3], [0])] demo_attack demo_objective (1/2) (Inr []) = Inr d"
    unfolding d_def by (rule init_demo) simp_all
  have b: "base_test demo_env (model d) 3 (testset d) = []" by (simp add: demo_env_def)
  note th = writer_order[of 0 "[([1, 2], [0, 1])]" "[([3], [0])]" demo_attack demo_objective "1/2" "[]" d
      demo_env d 3 s2 d s4]
  from th i have 1: "writer d = [] @ [AddText ''config/attack'' (Name (attack_class_name demo_attack)),
               AddText ''config/objective'' (Name (objective_class_name demo_objective)),
               AddText ''config/fraction'' (Str (1/2))]" by blast
  from th s2 obtain evs where 2: "writer s2 = writer d @ evs" "list_all (\<lambda>e. \<not> is_text e) evs"
    "scalars_before_images evs" by blast
  from th s4 b obtain evs' where 3: "writer s4 = writer d @ evs'" "list_all is_scalar evs'"
    by auto
  from 1 2 3 s2 s4 show ?thesis unfolding d_def by blast
qed


section \<open>The adversarial suffix\<close>

lemma tiny_fraction_floats:
  "fsub 1 tiny_fraction = 1" "float_of_int 2 = 2" "fmul 1 2 = 2" "fdiv 2 2 = 1" "fsub 1 1 = 0"
  by code_simp+

lemma tiny_fraction_range: "0 < tiny_fraction" "tiny_fraction \<le> 1"
  by (simp_all add: tiny_fraction_def)

text \<open>
  Claim C9 says that for every non-empty batch and every constructor fraction \<open>f\<close> in
  \<open>(0, 1]\<close> the adversarial suffix is not empty (\<open>split < N\<close>), and that a step whose
  clean prefix is empty takes the whole-batch branch. The first half fails for the
  smallest fractions: for \<open>f \<le> 2 ^ -54\<close> the binary64 difference \<open>1 - f\<close> is \<open>1.0\<close>, so
  \<open>split = N\<close>. With \<open>f = 2 ^ -60\<close> (\<open>tiny_fraction\<close>) and a batch of two examples the step runs with
  \<open>split = 2\<close>, no adversarial target and the weight \<open>split / N = 1\<close>.
\<close>

theorem adversarial_suffix_empty_counterexample:
  "map_sum id (\<lambda>l. (l_split l, l_adversarial_targets l, l_adversarial_inputs l, l_fraction l))
     (train_batch demo_env (demo_trainer tiny_fraction [] []) no_accumulators ([1, 2], [0, 1]))
   = Inr (2, [], [], 1)
   \<and> init 0 [] [] demo_attack demo_objective tiny_fraction (Inr [])
       = Inr (demo_trainer tiny_fraction [] [])"
proof (rule conjI)
  show "map_sum id (\<lambda>l. (l_split l, l_adversarial_targets l, l_adversarial_inputs l, l_fraction l))
     (train_batch demo_env (demo_trainer tiny_fraction [] []) no_accumulators ([1, 2], [0, 1]))
   = Inr (2, [], [], 1)"
    by (simp add: demo_eval tiny_fraction_floats)
  show "init 0 [] [] demo_attack demo_objective tiny_fraction (Inr [])
       = Inr (demo_trainer tiny_fraction [] [])"
    by (rule init_demo[OF tiny_fraction_range])
qed

text \<open>
  Claim C9, amended. For every batch of \<open>N\<close> examples with \<open>1 \<le> N < 2 ^ 53\<close> and every
  constructor fraction \<open>f\<close> with \<open>2 ^ -54 < f \<le> 1\<close>, the split index satisfies
  \<open>0 \<le> split < N\<close>, so the adversarial suffix is not empty; and whenever \<open>split = 0\<close>
  the clean prefix is empty, the forward pass runs on the adversarial inputs alone and
  the backward loss is the adversarial loss.
\<close>

theorem adversarial_suffix_nonempty:
  assumes "1 / 2 ^ 54 < f" and "f \<le> 1" and "fraction self = fsub 1 f"
    and "xs \<noteq> []" and "length xs < 2 ^ 53"
    and "train_batch env self acc (xs, ts) = Inr l"
  shows "0 \<le> l_split l \<and> l_split l < int (length xs) \<and> drop (nat (l_split l)) xs \<noteq> [] \<and>
         (l_split l = 0 \<longrightarrow>
            l_clean_inputs l = [] \<and> l_inputs l = l_adversarial_inputs l \<and>
            l_loss l = l_adversarial_loss l)"
proof -
  define n :: real where "n = real (length xs)"
  have npos: "0 < n" using assms(4) by (simp add: n_def)
  have fn: "float_of_int (int (length xs)) = n"
    unfolding n_def by (rule float_of_int_nat[OF assms(5)])
  have c0: "0 \<le> fsub 1 f" using assms(2) by (rule fsub_one_nonneg)
  have c1: "fsub 1 f \<le> 1 - 1 / 2 ^ 53"
  proof (cases "f = 1")
    case True
    then show ?thesis by (simp add: fsub_def round64_zero)
  next
    case False
    with assms(1,2) have x: "0 < 1 - f" "1 - f < 1" "1 - f < 1 - 1 / 2 ^ 54" by simp_all
    have "round64 (1 - f) < 1" using x(1,3) by (rule round64_lt_one)
    with x show ?thesis unfolding fsub_def by (intro round64_below_one)
  qed
  have lt: "fmul (fsub 1 f) n < n" using c0 c1 npos by (rule fmul_lt)
  have s: "l_split l = \<lfloor>fmul (fsub 1 f) n\<rfloor>" and s0: "0 \<le> l_split l"
    using split_nonneg[OF assms(2,3,6)] by (simp_all add: fn)
  have "real_of_int (l_split l) \<le> fmul (fsub 1 f) n" unfolding s by simp
  with lt have "real_of_int (l_split l) < real (length xs)" by (simp add: n_def)
  then have s1: "l_split l < int (length xs)" by linarith
  then have d: "drop (nat (l_split l)) xs \<noteq> []" using s0 by simp
  show ?thesis
    using s0 s1 d train_batch_whole_batch(1,2,3)[OF assms(6)] by simp
qed

lemma demo_batch_quarter:
  "\<exists>l. train_batch demo_env (demo_trainer (3/4) [] []) no_accumulators ([1, 2, 3], [0, 1, 1]) = Inr l"
proof -
  have f: "fsub 1 (3/4) = 1/4" "float_of_int 3 = 3" "fmul (1/4) 3 = 3/4" "float_of_int 0 = 0"
    "fdiv 0 3 = 0" by code_simp+
  show ?thesis by (simp add: demo_eval f)
qed

theorem adversarial_suffix_nonempty_witness:
  "\<exists>l. train_batch demo_env (demo_trainer (3/4) [] []) no_accumulators ([1, 2, 3], [0, 1, 1]) = Inr l
     \<and> l_split l = 0 \<and> l_clean_inputs l = [] \<and> l_inputs l = l_adversarial_inputs l
     \<and> l_loss l = l_adversarial_loss l"
proof -
  obtain l where l: "train_batch demo_env (demo_trainer (3/4) [] []) no_accumulators ([1, 2, 3], [0, 1, 1]) = Inr l"
    using demo_batch_quarter by blast
  have f: "fsub 1 (3/4) = 1/4" "float_of_int 3 = 3" "fmul (1/4) 3 = 3/4" by code_simp+
  have fr: "fraction (demo_trainer (3/4) [] []) = fsub 1 (3/4)" by (simp add: demo_trainer_def)
  have z: "l_split l = 0" using train_batch_Inr(2)[OF l] by (simp add: fr f py_int_def)
  from adversarial_suffix_nonempty[of "3/4", OF _ _ fr _ _ l] z
  have "l_clean_inputs l = [] \<and> l_inputs l = l_adversarial_inputs l \<and> l_loss l = l_adversarial_loss l"
    by simp
  with l z show ?thesis by blast
qed


section \<open>The global steps of one call of step\<close>



end
